theory Spec2Isabelle
  imports Complex_Main "HOL-Library.Word"
begin

unbundle bit_operations_syntax

section \<open>Bytes, errors and the \<open>struct\<close> packer\<close>

text \<open>
  \<open>scripts/gen_traffic.py\<close> builds every byte string with \<open>struct.pack\<close>. A Python
  \<open>bytes\<close> value is a list of 8-bit words, a Python \<open>int\<close> is an \<open>int\<close>, and every
  exception the script can raise is a value of \<open>py_error\<close>: a function that may raise
  returns \<open>py_error + 'a\<close>, with \<open>Inl\<close> for the exception.
\<close>

type_synonym byte = "8 word"

datatype py_error =
    AssertionError string
  | StructError
  | ValueError
  | IndexError
  | OSError
  | OverflowError

definition py_bind :: "py_error + 'a \<Rightarrow> ('a \<Rightarrow> py_error + 'b) \<Rightarrow> py_error + 'b" where
  "py_bind r f = (case r of Inl e \<Rightarrow> Inl e | Inr x \<Rightarrow> f x)"

text \<open>
  The format characters the script uses: \<open>B\<close> (u8), \<open>H\<close> (u16), \<open>I\<close> (u32), \<open>i\<close> (s32),
  \<open>Q\<close> (u64), \<open>Ns\<close> (N raw bytes, truncated or zero-padded to N) and \<open>x\<close> (one pad
  byte, consuming no argument). With the prefixes \<open><\<close> and \<open>>\<close> there is no alignment
  padding. An integer outside the range of its format makes \<open>struct.pack\<close> raise
  \<open>struct.error\<close>, as does a wrong number or type of arguments.
\<close>

datatype fmt = FmtB | FmtH | FmtI | Fmti | FmtQ | FmtS nat | FmtX

datatype byte_order = LittleEndian | BigEndian

datatype arg = IntArg int | BytesArg "byte list"

fun le_bytes :: "nat \<Rightarrow> int \<Rightarrow> byte list" where
  "le_bytes 0 v = []"
| "le_bytes (Suc w) v = word_of_int (v mod 256) # le_bytes w (v div 256)"

definition int_bytes :: "byte_order \<Rightarrow> nat \<Rightarrow> int \<Rightarrow> byte list" where
  "int_bytes bo w v = (case bo of LittleEndian \<Rightarrow> le_bytes w v | BigEndian \<Rightarrow> rev (le_bytes w v))"

definition pack_unsigned :: "byte_order \<Rightarrow> nat \<Rightarrow> int \<Rightarrow> py_error + byte list" where
  "pack_unsigned bo w v =
     (if 0 \<le> v \<and> v < 256 ^ w then Inr (int_bytes bo w v) else Inl StructError)"

definition pack_signed :: "byte_order \<Rightarrow> nat \<Rightarrow> int \<Rightarrow> py_error + byte list" where
  "pack_signed bo w v =
     (if - (256 ^ w div 2) \<le> v \<and> v < 256 ^ w div 2
      then Inr (int_bytes bo w (v mod 256 ^ w)) else Inl StructError)"

fun pack_item :: "byte_order \<Rightarrow> fmt \<Rightarrow> arg \<Rightarrow> py_error + byte list" where
  "pack_item bo FmtB (IntArg v) = pack_unsigned bo 1 v"
| "pack_item bo FmtH (IntArg v) = pack_unsigned bo 2 v"
| "pack_item bo FmtI (IntArg v) = pack_unsigned bo 4 v"
| "pack_item bo Fmti (IntArg v) = pack_signed bo 4 v"
| "pack_item bo FmtQ (IntArg v) = pack_unsigned bo 8 v"
| "pack_item bo (FmtS n) (BytesArg bs) = Inr (take n bs @ replicate (n - length bs) 0)"
| "pack_item bo f a = Inl StructError"

fun struct_pack :: "byte_order \<Rightarrow> fmt list \<Rightarrow> arg list \<Rightarrow> py_error + byte list" where
  "struct_pack bo [] [] = Inr []"
| "struct_pack bo [] (a # as) = Inl StructError"
| "struct_pack bo (FmtX # fs) as = py_bind (struct_pack bo fs as) (\<lambda>r. Inr (0 # r))"
| "struct_pack bo (f # fs) [] = Inl StructError"
| "struct_pack bo (f # fs) (a # as) =
     py_bind (pack_item bo f a) (\<lambda>b. py_bind (struct_pack bo fs as) (\<lambda>r. Inr (b @ r)))"

section \<open>DexSwapTx encoding\<close>

definition WIRE_SIZE :: nat where
  "WIRE_SIZE = 48"

text \<open>
  \<open>encode_dex_swap_tx\<close>: two assertions, then
  \<open>struct.pack("<Q20sQQBxxx", nonce & 0xFFFF_FFFF_FFFF_FFFF, pool_address, ...)\<close>.
  Python's \<open>&\<close> on unbounded integers is two's complement, as \<open>AND\<close> on \<open>int\<close> is.
\<close>

definition encode_dex_swap_tx :: "int \<Rightarrow> byte list \<Rightarrow> int \<Rightarrow> int \<Rightarrow> int \<Rightarrow> py_error + byte list" where
  "encode_dex_swap_tx nonce pool_address amount_in min_amount_out token_direction =
     (if length pool_address \<noteq> 20 then Inl (AssertionError ''pool_address must be 20 bytes'')
      else if token_direction \<notin> {0, 1} then Inl (AssertionError ''token_direction must be 0 or 1'')
      else struct_pack LittleEndian [FmtQ, FmtS 20, FmtQ, FmtQ, FmtB, FmtX, FmtX, FmtX]
             [IntArg (nonce AND 0xFFFFFFFFFFFFFFFF),
              BytesArg pool_address,
              IntArg (amount_in AND 0xFFFFFFFFFFFFFFFF),
              IntArg (min_amount_out AND 0xFFFFFFFFFFFFFFFF),
              IntArg token_direction])"

subsection \<open>An independent decoder of the fixed layout\<close>

text \<open>
  The script has no decoder. This one follows the layout table of the specification, not
  the encoder: nonce at offset 0 as u64 LE, pool address at 8 as 20 raw bytes, amountIn at
  28 as u64 LE, minAmountOut at 36 as u64 LE, tokenDirection at 44 as u8, and the three
  reserved bytes at 45.
\<close>

fun le_decode :: "byte list \<Rightarrow> int" where
  "le_decode [] = 0"
| "le_decode (b # bs) = uint b + 256 * le_decode bs"

definition be_decode :: "byte list \<Rightarrow> int" where
  "be_decode bs = le_decode (rev bs)"

definition slice :: "nat \<Rightarrow> nat \<Rightarrow> 'a list \<Rightarrow> 'a list" where
  "slice off len bs = take len (drop off bs)"

record dex_swap_tx =
  tx_nonce :: int
  tx_pool_address :: "byte list"
  tx_amount_in :: int
  tx_min_amount_out :: int
  tx_token_direction :: int
  tx_reserved :: "byte list"

definition decode_dex_swap_tx :: "byte list \<Rightarrow> dex_swap_tx" where
  "decode_dex_swap_tx bs =
     \<lparr> tx_nonce = le_decode (slice 0 8 bs),
       tx_pool_address = slice 8 20 bs,
       tx_amount_in = le_decode (slice 28 8 bs),
       tx_min_amount_out = le_decode (slice 36 8 bs),
       tx_token_direction = le_decode (slice 44 1 bs),
       tx_reserved = slice 45 3 bs \<rparr>"

section \<open>The Python runtime the script calls\<close>

text \<open>
  The script calls library code that is not part of the repository: the process-wide
  generator of \<open>random\<close> (seeded by \<open>random.seed\<close>, advanced by every draw)
  and \<open>socket.inet_aton\<close>. They are parameters of the model. CPython implements both
  \<open>randint\<close> and \<open>choice\<close> on one primitive, \<open>_randbelow n\<close>, which returns a number
  below \<open>n\<close> and advances the generator; \<open>'g\<close> is the type of generator states.
\<close>

record 'g runtime =
  rt_seed :: "int \<Rightarrow> 'g"
  rt_randbelow :: "nat \<Rightarrow> 'g \<Rightarrow> nat \<times> 'g"
  rt_inet_aton :: "string \<Rightarrow> py_error + byte list"

text \<open>The documented contract of \<open>_randbelow\<close>: a draw below \<open>n\<close> is below \<open>n\<close>.\<close>

definition rng_ok :: "'g runtime \<Rightarrow> bool" where
  "rng_ok L = (\<forall>n g. 0 < n \<longrightarrow> fst (rt_randbelow L n g) < n)"

text \<open>\<open>random.seed(s)\<close> replaces the generator state, whatever it was.\<close>

definition random_seed :: "'g runtime \<Rightarrow> int \<Rightarrow> 'g \<Rightarrow> 'g" where
  "random_seed L s g = rt_seed L s"

text \<open>\<open>random.randint(a, b)\<close> is \<open>a + _randbelow(b - a + 1)\<close>, and raises on an empty range.\<close>

definition randint :: "'g runtime \<Rightarrow> int \<Rightarrow> int \<Rightarrow> 'g \<Rightarrow> py_error + (int \<times> 'g)" where
  "randint L a b g =
     (if b < a then Inl ValueError
      else (case rt_randbelow L (nat (b - a + 1)) g of (k, g') \<Rightarrow> Inr (a + int k, g')))"

text \<open>\<open>random.choice(seq)\<close> is \<open>seq[_randbelow(len(seq))]\<close>, and raises on an empty sequence.\<close>

definition choice :: "'g runtime \<Rightarrow> 'a list \<Rightarrow> 'g \<Rightarrow> py_error + ('a \<times> 'g)" where
  "choice L xs g =
     (if xs = [] then Inl IndexError
      else (case rt_randbelow L (length xs) g of
              (k, g') \<Rightarrow> if k < length xs then Inr (xs ! k, g') else Inl IndexError))"

subsection \<open>A concrete runtime, to run the model on\<close>

text \<open>
  A linear congruential generator on \<open>nat\<close> and the two default addresses in packed
  form. They stand in for the Mersenne Twister and for \<open>inet_aton\<close> where a theorem
  is evaluated at a concrete input; no theorem of the script depends on them.
\<close>

definition lcg_randbelow :: "nat \<Rightarrow> nat \<Rightarrow> nat \<times> nat" where
  "lcg_randbelow n g = (g mod n, (1103515245 * g + 12345) mod 2147483648)"

definition dotted_quad :: "string \<Rightarrow> py_error + byte list" where
  "dotted_quad s =
     (if s = ''192.168.69.1'' then Inr [192, 168, 69, 1]
      else if s = ''192.168.69.2'' then Inr [192, 168, 69, 2]
      else Inl OSError)"

definition lcg_runtime :: "nat runtime" where
  "lcg_runtime = \<lparr> rt_seed = (\<lambda>s. nat \<bar>s\<bar>), rt_randbelow = lcg_randbelow, rt_inet_aton = dotted_quad \<rparr>"

section \<open>Packet generation scenarios\<close>

subsection \<open>The pool addresses\<close>

text \<open>
  \<open>bytes.fromhex\<close> reads two hexadecimal digits per byte, skips ASCII whitespace
  between bytes, and raises \<open>ValueError\<close> on anything else. \<open>s[:40]\<close> is \<open>take 40\<close>,
  \<open>s.ljust(40, "0")\<close> pads on the right.
\<close>

definition hex_digit :: "char \<Rightarrow> nat option" where
  "hex_digit c =
     (let n = (of_char c :: nat) in
      if 48 \<le> n \<and> n \<le> 57 then Some (n - 48)
      else if 97 \<le> n \<and> n \<le> 102 then Some (n - 87)
      else if 65 \<le> n \<and> n \<le> 70 then Some (n - 55)
      else None)"

definition is_space :: "char \<Rightarrow> bool" where
  "is_space c = ((of_char c :: nat) \<in> {32, 9, 10, 11, 12, 13})"

fun fromhex :: "string \<Rightarrow> py_error + byte list" where
  "fromhex [] = Inr []"
| "fromhex [c] = (if is_space c then Inr [] else Inl ValueError)"
| "fromhex (c # d # cs) =
     (if is_space c then fromhex (d # cs)
      else (case (hex_digit c, hex_digit d) of
              (Some h, Some l) \<Rightarrow> py_bind (fromhex cs) (\<lambda>bs. Inr (word_of_nat (16 * h + l) # bs))
            | _ \<Rightarrow> Inl ValueError))"

definition ljust :: "nat \<Rightarrow> char \<Rightarrow> string \<Rightarrow> string" where
  "ljust n c s = s @ replicate (n - length s) c"

definition POOL_ADDR_ETH_USDC :: "py_error + byte list" where
  "POOL_ADDR_ETH_USDC =
     fromhex (ljust 40 (CHR ''0'') (take 40 ''A0b86991c6218b36c1d19D4a2e9Eb0cE3606eB48''))"

definition POOL_ADDR_WBTC_ETH :: "py_error + byte list" where
  "POOL_ADDR_WBTC_ETH =
     fromhex (ljust 40 (CHR ''0'') (take 40 ''cBCdF9626bC03E24f779434178A73a0B4bad62eD''))"

text \<open>The two addresses, byte by byte, to compare the constants with.\<close>

definition ETH_USDC_BYTES :: "byte list" where
  "ETH_USDC_BYTES = [0xA0, 0xb8, 0x69, 0x91, 0xc6, 0x21, 0x8b, 0x36, 0xc1, 0xd1,
                     0x9D, 0x4a, 0x2e, 0x9E, 0xb0, 0xcE, 0x36, 0x06, 0xeB, 0x48]"

definition WBTC_ETH_BYTES :: "byte list" where
  "WBTC_ETH_BYTES = [0xcB, 0xCd, 0xF9, 0x62, 0x6b, 0xC0, 0x3E, 0x24, 0xf7, 0x79,
                     0x43, 0x41, 0x78, 0xA7, 0x3a, 0x0B, 0x4b, 0xad, 0x62, 0xeD]"

subsection \<open>\<open>int(amount_in * 0.90)\<close>: binary64 arithmetic\<close>

text \<open>
  The product of an \<open>int\<close> and a float literal is computed in IEEE-754 binary64: the
  integer is converted to the nearest double (\<open>OverflowError\<close> beyond the range), the
  exact product is rounded to 53 significant bits, ties to even, and \<open>int\<close> truncates
  towards zero. A non-negative double is written here as a numerator over a power of
  two. Both literals lie between 1/2 and 1 and the other factor is an integer, so the
  product neither overflows nor becomes subnormal.
\<close>

fun bit_length :: "nat \<Rightarrow> nat" where
  "bit_length n = (if n = 0 then 0 else Suc (bit_length (n div 2)))"

declare bit_length.simps [simp del]

definition round_half_even :: "nat \<Rightarrow> nat \<Rightarrow> nat" where
  "round_half_even n s =
     (let q = n div 2 ^ s; r = n mod 2 ^ s
      in if 2 ^ s < 2 * r \<or> (2 * r = 2 ^ s \<and> odd q) then q + 1 else q)"

definition round53 :: "nat \<Rightarrow> nat" where
  "round53 n =
     (if bit_length n \<le> 53 then n
      else round_half_even n (bit_length n - 53) * 2 ^ (bit_length n - 53))"

definition float_of_nat :: "nat \<Rightarrow> py_error + nat" where
  "float_of_nat a = (if 2 ^ 1024 \<le> round53 a then Inl OverflowError else Inr (round53 a))"

text \<open>A float literal \<open>m / 2 ^ e\<close>; \<open>0.90\<close> and \<open>0.999\<close> are the doubles nearest to 9/10 and 999/1000.\<close>

record float_literal =
  fl_num :: nat
  fl_scale :: nat

definition FLOAT_0_90 :: float_literal where
  "FLOAT_0_90 = \<lparr> fl_num = 8106479329266893, fl_scale = 53 \<rparr>"

definition FLOAT_0_999 :: float_literal where
  "FLOAT_0_999 = \<lparr> fl_num = 8998192055486251, fl_scale = 53 \<rparr>"

definition int_of_product :: "int \<Rightarrow> float_literal \<Rightarrow> py_error + int" where
  "int_of_product a c =
     py_bind (float_of_nat (nat \<bar>a\<bar>))
       (\<lambda>x. Inr (sgn a * int (round53 (x * fl_num c) div 2 ^ fl_scale c)))"

subsection \<open>The three scenario constructors\<close>

text \<open>
  Keyword arguments are evaluated left to right, so each constructor draws in the order
  the source lists its arguments.
\<close>

definition make_small_swap :: "'g runtime \<Rightarrow> int \<Rightarrow> 'g \<Rightarrow> py_error + (byte list \<times> 'g)" where
  "make_small_swap L nonce g =
     py_bind POOL_ADDR_ETH_USDC (\<lambda>pool.
     py_bind (randint L 1 999999 g) (\<lambda>(amount_in, g1).
     py_bind (randint L 0 1 g1) (\<lambda>(dir, g2).
     py_bind (encode_dex_swap_tx nonce pool amount_in 1 dir) (\<lambda>enc. Inr (enc, g2)))))"

definition make_large_swap :: "'g runtime \<Rightarrow> int \<Rightarrow> 'g \<Rightarrow> py_error + (byte list \<times> 'g)" where
  "make_large_swap L nonce g =
     py_bind (randint L 10000000 200000000 g) (\<lambda>(amount_in, g1).
     py_bind (int_of_product amount_in FLOAT_0_90) (\<lambda>min_out.
     py_bind POOL_ADDR_ETH_USDC (\<lambda>pool_a.
     py_bind POOL_ADDR_WBTC_ETH (\<lambda>pool_b.
     py_bind (choice L [pool_a, pool_b] g1) (\<lambda>(pool, g2).
     py_bind (randint L 0 1 g2) (\<lambda>(dir, g3).
     py_bind (encode_dex_swap_tx nonce pool amount_in min_out dir) (\<lambda>enc. Inr (enc, g3))))))))"

definition make_tight_slippage_swap :: "'g runtime \<Rightarrow> int \<Rightarrow> 'g \<Rightarrow> py_error + (byte list \<times> 'g)" where
  "make_tight_slippage_swap L nonce g =
     py_bind (randint L 5000000 50000000 g) (\<lambda>(amount_in, g1).
     py_bind (int_of_product amount_in FLOAT_0_999) (\<lambda>min_out.
     py_bind POOL_ADDR_ETH_USDC (\<lambda>pool.
     py_bind (encode_dex_swap_tx nonce pool amount_in min_out 0) (\<lambda>enc. Inr (enc, g1)))))"

section \<open>pcap writing\<close>

definition PCAP_GLOBAL_HEADER :: "py_error + byte list" where
  "PCAP_GLOBAL_HEADER =
     struct_pack LittleEndian [FmtI, FmtH, FmtH, Fmti, FmtI, FmtI, FmtI]
       [IntArg 0xA1B2C3D4, IntArg 2, IntArg 4, IntArg 0, IntArg 0, IntArg 65535, IntArg 1]"

definition PCAP_RECORD_HEADER_FMT :: "fmt list" where
  "PCAP_RECORD_HEADER_FMT = [FmtI, FmtI, FmtI, FmtI]"

definition ethernet_ip_udp_frame ::
  "'g runtime \<Rightarrow> byte list \<Rightarrow> string \<Rightarrow> string \<Rightarrow> int \<Rightarrow> int \<Rightarrow> byte list \<Rightarrow> byte list \<Rightarrow> 'g
     \<Rightarrow> py_error + (byte list \<times> 'g)" where
  "ethernet_ip_udp_frame L payload src_ip dst_ip src_port dst_port src_mac dst_mac g =
     (let udp_len = 8 + int (length payload) in
      py_bind (struct_pack BigEndian [FmtH, FmtH, FmtH, FmtH]
                 [IntArg src_port, IntArg dst_port, IntArg udp_len, IntArg 0]) (\<lambda>udp_hdr.
      py_bind (rt_inet_aton L src_ip) (\<lambda>ip_src.
      py_bind (rt_inet_aton L dst_ip) (\<lambda>ip_dst.
      let ip_len = 20 + udp_len in
      py_bind (randint L 1 65535 g) (\<lambda>(ident, g1).
      py_bind (struct_pack BigEndian
                 [FmtB, FmtB, FmtH, FmtH, FmtH, FmtB, FmtB, FmtH, FmtS 4, FmtS 4]
                 [IntArg 0x45, IntArg 0, IntArg ip_len, IntArg ident, IntArg 0x4000,
                  IntArg 64, IntArg 17, IntArg 0, BytesArg ip_src, BytesArg ip_dst]) (\<lambda>ip_hdr.
      Inr (dst_mac @ src_mac @ [0x08, 0x00] @ ip_hdr @ udp_hdr @ payload, g1)))))))"

text \<open>The call \<open>ethernet_ip_udp_frame(payload)\<close> of \<open>main\<close>, with every default argument.\<close>

definition ethernet_ip_udp_frame_default ::
  "'g runtime \<Rightarrow> byte list \<Rightarrow> 'g \<Rightarrow> py_error + (byte list \<times> 'g)" where
  "ethernet_ip_udp_frame_default L payload g =
     ethernet_ip_udp_frame L payload ''192.168.69.1'' ''192.168.69.2'' 54321 8080
       [0x00, 0x11, 0x22, 0x33, 0x44, 0x55] [0x02, 0x00, 0x00, 0x00, 0x00, 0x01] g"

text \<open>
  \<open>write_pcap\<close> opens the file for writing (which empties it), writes the global
  header and then one record per frame. The model returns the bytes in the file when the
  function ends and the exception that ended it, if any; a failure of the file system
  itself is outside the model.
\<close>

definition ts_sec :: "int \<Rightarrow> nat \<Rightarrow> int" where
  "ts_sec base_ts_sec i = base_ts_sec + int (i div 1000)"

definition ts_usec :: "nat \<Rightarrow> int" where
  "ts_usec i = int (i mod 1000) * 1000"

fun write_records :: "int \<Rightarrow> nat \<Rightarrow> byte list list \<Rightarrow> byte list \<Rightarrow> byte list \<times> py_error option" where
  "write_records base_ts_sec i [] f = (f, None)"
| "write_records base_ts_sec i (frame # frames) f =
     (let incl_len = int (length frame); orig_len = incl_len in
      case struct_pack LittleEndian PCAP_RECORD_HEADER_FMT
             [IntArg (ts_sec base_ts_sec i), IntArg (ts_usec i), IntArg incl_len, IntArg orig_len] of
        Inl e \<Rightarrow> (f, Some e)
      | Inr hdr \<Rightarrow> write_records base_ts_sec (Suc i) frames (f @ hdr @ frame))"

definition write_pcap :: "byte list list \<Rightarrow> int \<Rightarrow> byte list \<times> py_error option" where
  "write_pcap frames base_ts_sec =
     (case PCAP_GLOBAL_HEADER of
        Inl e \<Rightarrow> ([], Some e)
      | Inr hdr \<Rightarrow> write_records base_ts_sec 0 frames hdr)"

text \<open>
  The file format as the specification words it, to compare \<open>write_pcap\<close> with: the 24
  bytes of the global header as they lie in the file, and one record: the per-record
  header (seconds, microseconds, captured length, original length, each a little-endian
  u32) followed by the frame.
\<close>

definition GLOBAL_HEADER_BYTES :: "byte list" where
  "GLOBAL_HEADER_BYTES =
     [0xD4, 0xC3, 0xB2, 0xA1, 2, 0, 4, 0, 0, 0, 0, 0, 0, 0, 0, 0, 0xFF, 0xFF, 0, 0, 1, 0, 0, 0]"

definition pcap_record :: "int \<Rightarrow> nat \<Rightarrow> byte list \<Rightarrow> byte list" where
  "pcap_record base_ts_sec i frame =
     le_bytes 4 (ts_sec base_ts_sec i) @ le_bytes 4 (ts_usec i)
       @ le_bytes 4 (int (length frame)) @ le_bytes 4 (int (length frame)) @ frame"

section \<open>Main\<close>

text \<open>
  \<open>argparse\<close> restricts \<open>--mode\<close> to four strings and \<open>--count\<close> and \<open>--seed\<close> to
  integers. The scenario class of a record is the branch of the loop body that builds
  it.
\<close>

datatype mode = Large | Small | Tight | Mixed

datatype scenario = Small_swap | Tight_swap | Large_swap

definition scenario_class :: "mode \<Rightarrow> nat \<Rightarrow> scenario" where
  "scenario_class m i =
     (if m = Large then Large_swap
      else if m = Small then Small_swap
      else if m = Tight then Tight_swap
      else (let r = i mod 4 in
            if r = 0 then Small_swap else if r = 1 then Tight_swap else Large_swap))"

fun make_scenario :: "scenario \<Rightarrow> 'g runtime \<Rightarrow> int \<Rightarrow> 'g \<Rightarrow> py_error + (byte list \<times> 'g)" where
  "make_scenario Small_swap = make_small_swap"
| "make_scenario Tight_swap = make_tight_slippage_swap"
| "make_scenario Large_swap = make_large_swap"

text \<open>One iteration of the loop of \<open>main\<close>: the payload, its size assertion, the frame.\<close>

definition main_step :: "'g runtime \<Rightarrow> mode \<Rightarrow> nat \<Rightarrow> 'g \<Rightarrow> py_error + (byte list \<times> 'g)" where
  "main_step L m i g =
     py_bind (make_scenario (scenario_class m i) L (int i) g) (\<lambda>(payload, g1).
       if length payload \<noteq> WIRE_SIZE then Inl (AssertionError ''payload size'')
       else ethernet_ip_udp_frame_default L payload g1)"

fun main_loop ::
  "'g runtime \<Rightarrow> mode \<Rightarrow> nat list \<Rightarrow> byte list list \<Rightarrow> 'g \<Rightarrow> py_error + (byte list list \<times> 'g)" where
  "main_loop L m [] frames g = Inr (frames, g)"
| "main_loop L m (i # is) frames g =
     py_bind (main_step L m i g) (\<lambda>(frame, g1). main_loop L m is (frames @ [frame]) g1)"

text \<open>
  \<open>main\<close>, from \<open>random.seed(args.seed)\<close> on. \<open>g0\<close> is the state of the generator
  before the run. The result is the content of the output file, \<open>None\<close> when the run
  ended before opening it, and the exception that ended the run, if any. The summary
  printed to standard output is not modelled.
\<close>

definition main :: "'g runtime \<Rightarrow> int \<Rightarrow> mode \<Rightarrow> int \<Rightarrow> 'g \<Rightarrow> byte list option \<times> py_error option" where
  "main L count m seed g0 =
     (let g = random_seed L seed g0 in
      case main_loop L m [0..<nat count] [] g of
        Inl e \<Rightarrow> (None, Some e)
      | Inr (frames, g1) \<Rightarrow>
          (case write_pcap frames 1700000000 of (f, err) \<Rightarrow> (Some f, err)))"

section \<open>Properties of the packer and of the encoder\<close>

lemma py_bind_simps [simp]:
  "py_bind (Inl e) f = Inl e"
  "py_bind (Inr x) f = f x"
  by (simp_all add: py_bind_def)

lemma length_le_bytes [simp]: "length (le_bytes w v) = w"
  by (induction w arbitrary: v) simp_all

lemma le_decode_le_bytes: "le_decode (le_bytes w v) = v mod 256 ^ w"
proof (induction w arbitrary: v)
  case 0
  then show ?case by simp
next
  case (Suc w)
  have "uint (word_of_int (v mod 256) :: byte) = v mod 256"
    by (simp add: uint_word_of_int)
  then show ?case
    using Suc [of "v div 256"] by (simp add: zmod_zmult2_eq)
qed

lemma le_decode_le_bytes_id: "0 \<le> v \<Longrightarrow> v < 256 ^ w \<Longrightarrow> le_decode (le_bytes w v) = v"
  by (simp add: le_decode_le_bytes)

lemma py_mask64: "(v::int) AND 0xFFFFFFFFFFFFFFFF = v mod 2 ^ 64"
proof -
  have "(0xFFFFFFFFFFFFFFFF :: int) = mask 64"
    by (simp add: mask_eq_exp_minus_1)
  moreover have "v AND mask 64 = v mod 2 ^ 64"
    by (simp only: take_bit_eq_mask [symmetric] take_bit_eq_mod)
  ultimately show ?thesis
    by (simp only:)
qed

text \<open>What the encoder returns on an input that passes both assertions.\<close>

lemma encode_dex_swap_tx_bytes:
  assumes "length pool_address = 20" and "token_direction \<in> {0, 1}"
  shows "encode_dex_swap_tx nonce pool_address amount_in min_amount_out token_direction =
     Inr (le_bytes 8 (nonce mod 2 ^ 64) @ pool_address @ le_bytes 8 (amount_in mod 2 ^ 64)
          @ le_bytes 8 (min_amount_out mod 2 ^ 64) @ [word_of_int token_direction, 0, 0, 0])"
  using assms
  by (auto simp add: encode_dex_swap_tx_def py_mask64 pack_unsigned_def int_bytes_def)

lemma decode_layout:
  assumes "length n8 = 8" and "length p20 = 20" and "length a8 = 8" and "length m8 = 8"
  shows "decode_dex_swap_tx (n8 @ p20 @ a8 @ m8 @ [d, r0, r1, r2]) =
     \<lparr> tx_nonce = le_decode n8, tx_pool_address = p20, tx_amount_in = le_decode a8,
       tx_min_amount_out = le_decode m8, tx_token_direction = uint d,
       tx_reserved = [r0, r1, r2] \<rparr>"
  using assms by (simp add: decode_dex_swap_tx_def slice_def)

text \<open>
  Claim C1. For all integers \<open>nonce\<close>, \<open>amount_in\<close> and \<open>min_amount_out\<close>, negative or
  beyond 64 bits included, every 20-byte pool address and every direction in {0, 1}, the
  encoder returns a byte string that the independent decoder of the fixed layout reads
  back as (nonce mod 2^64, pool address, amountIn mod 2^64, minAmountOut mod 2^64,
  direction), with three zero bytes of padding: integers out of range are wrapped, never
  rejected.
\<close>

theorem encode_decode_roundtrip:
  assumes "length pool_address = 20" and "token_direction \<in> {0, 1}"
  shows "\<exists>enc. encode_dex_swap_tx nonce pool_address amount_in min_amount_out token_direction = Inr enc
     \<and> decode_dex_swap_tx enc =
         \<lparr> tx_nonce = nonce mod 2 ^ 64, tx_pool_address = pool_address,
           tx_amount_in = amount_in mod 2 ^ 64, tx_min_amount_out = min_amount_out mod 2 ^ 64,
           tx_token_direction = token_direction, tx_reserved = [0, 0, 0] \<rparr>"
proof -
  have dir: "uint (word_of_int token_direction :: byte) = token_direction"
    using assms(2) by (auto simp add: uint_word_of_int)
  have m: "\<And>v::int. le_decode (le_bytes 8 (v mod 2 ^ 64)) = v mod 2 ^ 64"
    by (simp add: le_decode_le_bytes)
  show ?thesis
    unfolding encode_dex_swap_tx_bytes [OF assms]
    by (simp only: sum.inject simp_thms ex_simps decode_layout [OF _ assms(1)]
          length_le_bytes m dir)
qed

theorem encode_decode_roundtrip_witness:
  "length (replicate 20 (7 :: byte)) = 20 \<and> (1 :: int) \<in> {0, 1} \<and>
   (\<exists>enc. encode_dex_swap_tx (- 1) (replicate 20 7) (2 ^ 64 + 5) (- (2 ^ 64) - 3) 1 = Inr enc
     \<and> decode_dex_swap_tx enc =
         \<lparr> tx_nonce = 18446744073709551615, tx_pool_address = replicate 20 7,
           tx_amount_in = 5, tx_min_amount_out = 18446744073709551613,
           tx_token_direction = 1, tx_reserved = [0, 0, 0] \<rparr>)"
  using encode_decode_roundtrip [of "replicate 20 (7 :: byte)" 1 "- 1" "2 ^ 64 + 5" "- (2 ^ 64) - 3"]
  by simp

text \<open>
  Claim C2. For every input that satisfies the preconditions of the encoder (a pool
  address of 20 bytes, a direction in {0, 1}, any three integers), the encoder returns a
  byte string of exactly 48 bytes, whatever the field values.
\<close>

theorem encode_length_48:
  assumes "length pool_address = 20" and "token_direction \<in> {0, 1}"
  shows "\<exists>enc. encode_dex_swap_tx nonce pool_address amount_in min_amount_out token_direction = Inr enc
     \<and> length enc = 48 \<and> length enc = WIRE_SIZE"
  unfolding encode_dex_swap_tx_bytes [OF assms]
  by (simp add: assms(1) WIRE_SIZE_def)

theorem encode_length_48_witness:
  "length (replicate 20 (0 :: byte)) = 20 \<and> (0 :: int) \<in> {0, 1} \<and>
   (\<exists>enc. encode_dex_swap_tx (2 ^ 70) (replicate 20 0) (- 9) 0 0 = Inr enc
     \<and> length enc = 48 \<and> length enc = WIRE_SIZE)"
  using encode_length_48 [of "replicate 20 (0 :: byte)" 0 "2 ^ 70" "- 9" 0]
  by simp

text \<open>
  Claim C3. The encoder raises exactly when its precondition is violated: it raises
  \<open>AssertionError\<close> for every pool address whose length is not 20 and for every
  direction outside {0, 1}, and it returns a value, raising nothing, whenever the pool
  address has 20 bytes and the direction is 0 or 1.
\<close>

theorem encode_raises_iff:
  "(length pool_address \<noteq> 20 \<longrightarrow>
      encode_dex_swap_tx nonce pool_address amount_in min_amount_out token_direction
        = Inl (AssertionError ''pool_address must be 20 bytes''))
   \<and> (length pool_address = 20 \<and> token_direction \<notin> {0, 1} \<longrightarrow>
      encode_dex_swap_tx nonce pool_address amount_in min_amount_out token_direction
        = Inl (AssertionError ''token_direction must be 0 or 1''))
   \<and> (length pool_address = 20 \<and> token_direction \<in> {0, 1} \<longrightarrow>
      (\<exists>enc. encode_dex_swap_tx nonce pool_address amount_in min_amount_out token_direction = Inr enc))
   \<and> ((\<exists>e. encode_dex_swap_tx nonce pool_address amount_in min_amount_out token_direction = Inl e)
        \<longleftrightarrow> length pool_address \<noteq> 20 \<or> token_direction \<notin> {0, 1})"
proof -
  have ok: "length pool_address = 20 \<and> token_direction \<in> {0, 1} \<longrightarrow>
      (\<exists>enc. encode_dex_swap_tx nonce pool_address amount_in min_amount_out token_direction = Inr enc)"
    using encode_dex_swap_tx_bytes [of pool_address token_direction] by blast
  have bad1: "length pool_address \<noteq> 20 \<longrightarrow>
      encode_dex_swap_tx nonce pool_address amount_in min_amount_out token_direction
        = Inl (AssertionError ''pool_address must be 20 bytes'')"
    by (simp add: encode_dex_swap_tx_def)
  have bad2: "length pool_address = 20 \<and> token_direction \<notin> {0, 1} \<longrightarrow>
      encode_dex_swap_tx nonce pool_address amount_in min_amount_out token_direction
        = Inl (AssertionError ''token_direction must be 0 or 1'')"
    by (simp add: encode_dex_swap_tx_def)
  have iff: "(\<exists>e. encode_dex_swap_tx nonce pool_address amount_in min_amount_out token_direction = Inl e)
        \<longleftrightarrow> length pool_address \<noteq> 20 \<or> token_direction \<notin> {0, 1}"
    using ok bad1 bad2 by (metis sum.distinct(1))
  show ?thesis
    using ok bad1 bad2 iff by blast
qed

theorem encode_raises_iff_witness:
  "encode_dex_swap_tx 1 [] 2 3 0 = Inl (AssertionError ''pool_address must be 20 bytes'')
   \<and> encode_dex_swap_tx 1 (replicate 19 0) 2 3 0 = Inl (AssertionError ''pool_address must be 20 bytes'')
   \<and> encode_dex_swap_tx 1 (replicate 21 0) 2 3 0 = Inl (AssertionError ''pool_address must be 20 bytes'')
   \<and> encode_dex_swap_tx 1 (replicate 100 0) 2 3 0 = Inl (AssertionError ''pool_address must be 20 bytes'')
   \<and> encode_dex_swap_tx 1 (replicate 20 0) 2 3 2 = Inl (AssertionError ''token_direction must be 0 or 1'')
   \<and> encode_dex_swap_tx 1 (replicate 20 0) 2 3 255 = Inl (AssertionError ''token_direction must be 0 or 1'')
   \<and> (\<exists>enc. encode_dex_swap_tx 1 (replicate 20 0) 2 3 1 = Inr enc)"
  using encode_raises_iff [of "[]" 1 2 3 0]
    encode_raises_iff [of "replicate 19 0" 1 2 3 0]
    encode_raises_iff [of "replicate 21 0" 1 2 3 0]
    encode_raises_iff [of "replicate 100 0" 1 2 3 0]
    encode_raises_iff [of "replicate 20 0" 1 2 3 2]
    encode_raises_iff [of "replicate 20 0" 1 2 3 255]
    encode_raises_iff [of "replicate 20 0" 1 2 3 1]
  by simp

section \<open>Properties of the capture writer\<close>

lemma le_bytes_2: "le_bytes 2 v = [word_of_int (v mod 256), word_of_int (v div 256 mod 256)]"
  by (simp add: numeral_2_eq_2)

lemma pack_B: "0 \<le> v \<Longrightarrow> v < 256 \<Longrightarrow> pack_unsigned bo (Suc 0) v = Inr [word_of_int v]"
  by (cases bo) (simp_all add: pack_unsigned_def int_bytes_def)

lemma pack_H: "0 \<le> v \<Longrightarrow> v < 65536 \<Longrightarrow> pack_unsigned bo 2 v = Inr (int_bytes bo 2 v)"
  by (simp add: pack_unsigned_def)

lemma int_bytes_BigEndian: "int_bytes BigEndian w v = rev (le_bytes w v)"
  by (simp add: int_bytes_def)

lemma be_decode_be_bytes: "0 \<le> v \<Longrightarrow> v < 256 ^ w \<Longrightarrow> be_decode (rev (le_bytes w v)) = v"
  by (simp add: be_decode_def le_decode_le_bytes)

lemma PCAP_GLOBAL_HEADER_bytes: "PCAP_GLOBAL_HEADER = Inr GLOBAL_HEADER_BYTES"
  by (simp add: PCAP_GLOBAL_HEADER_def GLOBAL_HEADER_BYTES_def pack_unsigned_def pack_signed_def
        int_bytes_def numeral_eq_Suc)

lemma pack_record_header:
  assumes "0 \<le> a" "a < 2 ^ 32" "0 \<le> b" "b < 2 ^ 32" "0 \<le> c" "c < 2 ^ 32"
  shows "struct_pack LittleEndian PCAP_RECORD_HEADER_FMT [IntArg a, IntArg b, IntArg c, IntArg c]
     = Inr (le_bytes 4 a @ le_bytes 4 b @ le_bytes 4 c @ le_bytes 4 c)"
  using assms by (simp add: PCAP_RECORD_HEADER_FMT_def pack_unsigned_def int_bytes_def)

lemma ts_usec_range: "0 \<le> ts_usec i \<and> ts_usec i < 2 ^ 32"
proof -
  have "i mod 1000 < 1000" by simp
  then have "int (i mod 1000) * 1000 < 1000 * 1000" by linarith
  then show ?thesis by (simp add: ts_usec_def)
qed

lemma ts_sec_mono: "i \<le> j \<Longrightarrow> ts_sec base i \<le> ts_sec base j"
  by (simp add: ts_sec_def div_le_mono)

text \<open>The loop of \<open>write_pcap\<close>, started at any index and on any file content.\<close>

lemma write_records_ok:
  assumes "0 \<le> base"
    and "\<forall>fr \<in> set frames. length fr < 2 ^ 32"
    and "\<forall>j. i \<le> j \<and> j < i + length frames \<longrightarrow> ts_sec base j < 2 ^ 32"
  shows "write_records base i frames f =
     (f @ concat (map (\<lambda>(j, fr). pcap_record base j fr) (enumerate i frames)), None)"
  using assms
proof (induction frames arbitrary: i f)
  case Nil
  then show ?case by simp
next
  case (Cons frame frames)
  have s0: "0 \<le> ts_sec base i"
    using Cons.prems(1) by (simp add: ts_sec_def)
  have s1: "ts_sec base i < 2 ^ 32"
    using Cons.prems(3) by simp
  have l1: "int (length frame) < 2 ^ 32"
    using Cons.prems(2) by simp
  have hdr: "struct_pack LittleEndian PCAP_RECORD_HEADER_FMT
       [IntArg (ts_sec base i), IntArg (ts_usec i), IntArg (int (length frame)), IntArg (int (length frame))]
     = Inr (le_bytes 4 (ts_sec base i) @ le_bytes 4 (ts_usec i)
            @ le_bytes 4 (int (length frame)) @ le_bytes 4 (int (length frame)))"
    using pack_record_header [OF s0 s1 _ _ _ l1] ts_usec_range [of i] by simp
  have rest: "write_records base (Suc i) frames f' =
     (f' @ concat (map (\<lambda>(j, fr). pcap_record base j fr) (enumerate (Suc i) frames)), None)" for f'
    using Cons.prems by (intro Cons.IH) auto
  show ?case
    by (simp add: hdr rest pcap_record_def Let_def)
qed

text \<open>The same loop under the condition of each record, and where a record does not fit.\<close>

lemma pack_record_header_error:
  assumes "\<not> (0 \<le> a \<and> a < 2 ^ 32 \<and> c < 2 ^ 32)"
  shows "struct_pack LittleEndian PCAP_RECORD_HEADER_FMT [IntArg a, IntArg b, IntArg c, IntArg c]
     = Inl StructError"
  using assms by (auto simp add: PCAP_RECORD_HEADER_FMT_def pack_unsigned_def)

lemma write_records_fits:
  assumes "\<forall>j < length frames. 0 \<le> ts_sec base (i + j) \<and> ts_sec base (i + j) < 2 ^ 32
             \<and> length (frames ! j) < 2 ^ 32"
  shows "write_records base i frames f =
     (f @ concat (map (\<lambda>(j, fr). pcap_record base j fr) (enumerate i frames)), None)"
  using assms
proof (induction frames arbitrary: i f)
  case Nil
  then show ?case by simp
next
  case (Cons frame frames)
  have h0: "0 \<le> ts_sec base i \<and> ts_sec base i < 2 ^ 32 \<and> length frame < 2 ^ 32"
    using Cons.prems [rule_format, of 0] by simp
  have l1: "int (length frame) < 2 ^ 32"
    using h0 by simp
  have hdr: "struct_pack LittleEndian PCAP_RECORD_HEADER_FMT
       [IntArg (ts_sec base i), IntArg (ts_usec i), IntArg (int (length frame)), IntArg (int (length frame))]
     = Inr (le_bytes 4 (ts_sec base i) @ le_bytes 4 (ts_usec i)
            @ le_bytes 4 (int (length frame)) @ le_bytes 4 (int (length frame)))"
    using pack_record_header [OF _ _ _ _ _ l1, of "ts_sec base i" "ts_usec i"] h0 ts_usec_range [of i]
    by simp
  have p: "\<forall>j < length frames. 0 \<le> ts_sec base (Suc i + j) \<and> ts_sec base (Suc i + j) < 2 ^ 32
             \<and> length (frames ! j) < 2 ^ 32"
  proof (intro allI impI)
    fix j assume "j < length frames"
    then show "0 \<le> ts_sec base (Suc i + j) \<and> ts_sec base (Suc i + j) < 2 ^ 32
             \<and> length (frames ! j) < 2 ^ 32"
      using Cons.prems [rule_format, of "Suc j"] by simp
  qed
  have rest: "write_records base (Suc i) frames f' =
     (f' @ concat (map (\<lambda>(j, fr). pcap_record base j fr) (enumerate (Suc i) frames)), None)" for f'
    using Cons.IH [OF p] .
  show ?case
    by (simp add: hdr rest pcap_record_def Let_def)
qed

lemma write_records_error:
  assumes "k < length frames"
    and "\<forall>j < k. 0 \<le> ts_sec base (i + j) \<and> ts_sec base (i + j) < 2 ^ 32
             \<and> length (frames ! j) < 2 ^ 32"
    and "\<not> (0 \<le> ts_sec base (i + k) \<and> ts_sec base (i + k) < 2 ^ 32
             \<and> length (frames ! k) < 2 ^ 32)"
  shows "write_records base i frames f =
     (f @ concat (map (\<lambda>(j, fr). pcap_record base j fr) (enumerate i (take k frames))),
      Some StructError)"
  using assms
proof (induction frames arbitrary: i f k)
  case Nil
  then show ?case by simp
next
  case (Cons frame frames)
  show ?case
  proof (cases k)
    case 0
    have "\<not> (0 \<le> ts_sec base i \<and> ts_sec base i < 2 ^ 32 \<and> int (length frame) < 2 ^ 32)"
      using Cons.prems(3) by (simp add: 0)
    then have "struct_pack LittleEndian PCAP_RECORD_HEADER_FMT
       [IntArg (ts_sec base i), IntArg (ts_usec i), IntArg (int (length frame)), IntArg (int (length frame))]
     = Inl StructError"
      by (rule pack_record_header_error)
    then show ?thesis by (simp add: 0 Let_def)
  next
    case (Suc k')
    have h0: "0 \<le> ts_sec base i \<and> ts_sec base i < 2 ^ 32 \<and> length frame < 2 ^ 32"
      using Cons.prems(2) [rule_format, of 0] by (simp add: Suc)
    have l1: "int (length frame) < 2 ^ 32"
      using h0 by simp
    have hdr: "struct_pack LittleEndian PCAP_RECORD_HEADER_FMT
       [IntArg (ts_sec base i), IntArg (ts_usec i), IntArg (int (length frame)), IntArg (int (length frame))]
     = Inr (le_bytes 4 (ts_sec base i) @ le_bytes 4 (ts_usec i)
            @ le_bytes 4 (int (length frame)) @ le_bytes 4 (int (length frame)))"
      using pack_record_header [OF _ _ _ _ _ l1, of "ts_sec base i" "ts_usec i"] h0 ts_usec_range [of i]
      by simp
    have k': "k' < length frames" using Cons.prems(1) by (simp add: Suc)
    have p: "\<forall>j < k'. 0 \<le> ts_sec base (Suc i + j) \<and> ts_sec base (Suc i + j) < 2 ^ 32
             \<and> length (frames ! j) < 2 ^ 32"
    proof (intro allI impI)
      fix j assume "j < k'"
      then show "0 \<le> ts_sec base (Suc i + j) \<and> ts_sec base (Suc i + j) < 2 ^ 32
             \<and> length (frames ! j) < 2 ^ 32"
        using Cons.prems(2) [rule_format, of "Suc j"] by (simp add: Suc)
    qed
    have q: "\<not> (0 \<le> ts_sec base (Suc i + k') \<and> ts_sec base (Suc i + k') < 2 ^ 32
             \<and> length (frames ! k') < 2 ^ 32)"
      using Cons.prems(3) by (simp add: Suc)
    have rest: "write_records base (Suc i) frames f' =
       (f' @ concat (map (\<lambda>(j, fr). pcap_record base j fr) (enumerate (Suc i) (take k' frames))),
        Some StructError)" for f'
      using Cons.IH [OF k' p q] .
    show ?thesis
      by (simp add: hdr rest pcap_record_def Let_def Suc)
  qed
qed

lemma ts_lex_mono:
  assumes "i \<le> j"
  shows "ts_sec base i < ts_sec base j \<or> (ts_sec base i = ts_sec base j \<and> ts_usec i \<le> ts_usec j)"
proof (cases "i div 1000 < j div 1000")
  case True
  then show ?thesis by (simp add: ts_sec_def)
next
  case False
  then have eq: "i div 1000 = j div 1000"
    using assms div_le_mono [of i j 1000] by linarith
  have "i mod 1000 \<le> j mod 1000"
    using assms eq by (metis add_le_cancel_left mult_div_mod_eq)
  then show ?thesis
    by (simp add: ts_sec_def ts_usec_def eq)
qed

text \<open>
  Claim C7, as stated, for every list of frames and every base timestamp: it fails where
  a value does not fit the unsigned 32-bit field of the record header. With the base
  timestamp 2^32 and one (empty) frame, \<open>struct.pack\<close> raises and \<open>write_pcap\<close> leaves a
  file that holds the global header and no record.
\<close>

theorem write_pcap_counterexample:
  "write_pcap [[]] 4294967296 = (GLOBAL_HEADER_BYTES, Some StructError)"
  by (simp add: write_pcap_def PCAP_GLOBAL_HEADER_bytes PCAP_RECORD_HEADER_FMT_def
        pack_unsigned_def ts_sec_def)

text \<open>
  Claim C7, amended. For every base timestamp and list of frames such that the values of
  every record fit the unsigned 32-bit fields of its header (0 <= base + i div 1000 < 2^32
  and len(frame) < 2^32 at every index i of the list; nothing is asked of the base
  timestamp when the list is empty), \<open>write_pcap\<close> raises nothing and writes the global
  header followed, for the frame at index i, by the 16-byte little-endian packing of
  (base + i div 1000, (i mod 1000) * 1000, len(frame), len(frame)) and the frame; captured
  length equals original length. If the values of some record do not fit, \<open>struct.pack\<close>
  raises \<open>struct.error\<close> at the first such index k, and the file holds the global header
  and the records of the k frames before it. For every base timestamp the timestamps
  (seconds, then microseconds) never decrease with the index, and between index 999 and
  index 1000 the seconds grow by exactly 1 while the microseconds go from 999000 to 0.
\<close>

theorem write_pcap_records:
  "((\<forall>i < length frames. 0 \<le> ts_sec base_ts_sec i \<and> ts_sec base_ts_sec i < 2 ^ 32
        \<and> length (frames ! i) < 2 ^ 32) \<longrightarrow>
      write_pcap frames base_ts_sec =
           (GLOBAL_HEADER_BYTES
            @ concat (map (\<lambda>(i, frame). pcap_record base_ts_sec i frame) (enumerate 0 frames)), None)
      \<and> (\<forall>i < length frames.
           length (pcap_record base_ts_sec i (frames ! i)) = 16 + length (frames ! i)
         \<and> le_decode (slice 0 4 (pcap_record base_ts_sec i (frames ! i))) = base_ts_sec + int (i div 1000)
         \<and> le_decode (slice 4 4 (pcap_record base_ts_sec i (frames ! i))) = int ((i mod 1000) * 1000)
         \<and> le_decode (slice 8 4 (pcap_record base_ts_sec i (frames ! i))) = int (length (frames ! i))
         \<and> le_decode (slice 12 4 (pcap_record base_ts_sec i (frames ! i))) = int (length (frames ! i))
         \<and> drop 16 (pcap_record base_ts_sec i (frames ! i)) = frames ! i))
   \<and> ((\<exists>i < length frames. \<not> (0 \<le> ts_sec base_ts_sec i \<and> ts_sec base_ts_sec i < 2 ^ 32
        \<and> length (frames ! i) < 2 ^ 32)) \<longrightarrow>
      (\<exists>k < length frames.
           (\<forall>j < k. 0 \<le> ts_sec base_ts_sec j \<and> ts_sec base_ts_sec j < 2 ^ 32
              \<and> length (frames ! j) < 2 ^ 32)
         \<and> \<not> (0 \<le> ts_sec base_ts_sec k \<and> ts_sec base_ts_sec k < 2 ^ 32
              \<and> length (frames ! k) < 2 ^ 32)
         \<and> write_pcap frames base_ts_sec =
             (GLOBAL_HEADER_BYTES
              @ concat (map (\<lambda>(i, frame). pcap_record base_ts_sec i frame)
                          (enumerate 0 (take k frames))), Some StructError)))
   \<and> (\<forall>i j. i \<le> j \<longrightarrow>
           ts_sec base_ts_sec i < ts_sec base_ts_sec j
         \<or> (ts_sec base_ts_sec i = ts_sec base_ts_sec j \<and> ts_usec i \<le> ts_usec j))
   \<and> ts_sec base_ts_sec 1000 = ts_sec base_ts_sec 999 + 1
   \<and> ts_usec 999 = 999000 \<and> ts_usec 1000 = 0"
proof -
  let ?fits = "\<lambda>i. 0 \<le> ts_sec base_ts_sec i \<and> ts_sec base_ts_sec i < 2 ^ 32
        \<and> length (frames ! i) < 2 ^ 32"
  have good: "write_pcap frames base_ts_sec =
           (GLOBAL_HEADER_BYTES
            @ concat (map (\<lambda>(i, frame). pcap_record base_ts_sec i frame) (enumerate 0 frames)), None)
      \<and> (\<forall>i < length frames.
           length (pcap_record base_ts_sec i (frames ! i)) = 16 + length (frames ! i)
         \<and> le_decode (slice 0 4 (pcap_record base_ts_sec i (frames ! i))) = base_ts_sec + int (i div 1000)
         \<and> le_decode (slice 4 4 (pcap_record base_ts_sec i (frames ! i))) = int ((i mod 1000) * 1000)
         \<and> le_decode (slice 8 4 (pcap_record base_ts_sec i (frames ! i))) = int (length (frames ! i))
         \<and> le_decode (slice 12 4 (pcap_record base_ts_sec i (frames ! i))) = int (length (frames ! i))
         \<and> drop 16 (pcap_record base_ts_sec i (frames ! i)) = frames ! i)"
    if fits: "\<forall>i < length frames. ?fits i"
  proof -
    have "\<forall>j < length frames. 0 \<le> ts_sec base_ts_sec (0 + j) \<and> ts_sec base_ts_sec (0 + j) < 2 ^ 32
             \<and> length (frames ! j) < 2 ^ 32"
      using fits by simp
    then have wfile: "write_pcap frames base_ts_sec =
           (GLOBAL_HEADER_BYTES
            @ concat (map (\<lambda>(i, frame). pcap_record base_ts_sec i frame) (enumerate 0 frames)), None)"
      by (simp only: write_pcap_def PCAP_GLOBAL_HEADER_bytes write_records_fits sum.case)
    have fields: "length (pcap_record base_ts_sec i (frames ! i)) = 16 + length (frames ! i)
         \<and> le_decode (slice 0 4 (pcap_record base_ts_sec i (frames ! i))) = base_ts_sec + int (i div 1000)
         \<and> le_decode (slice 4 4 (pcap_record base_ts_sec i (frames ! i))) = int ((i mod 1000) * 1000)
         \<and> le_decode (slice 8 4 (pcap_record base_ts_sec i (frames ! i))) = int (length (frames ! i))
         \<and> le_decode (slice 12 4 (pcap_record base_ts_sec i (frames ! i))) = int (length (frames ! i))
         \<and> drop 16 (pcap_record base_ts_sec i (frames ! i)) = frames ! i"
      if "i < length frames" for i
    proof -
      have s: "0 \<le> ts_sec base_ts_sec i" "ts_sec base_ts_sec i < 256 ^ 4"
        using fits that by simp_all
      have u: "0 \<le> ts_usec i" "ts_usec i < 256 ^ 4"
        using ts_usec_range [of i] by simp_all
      have l: "0 \<le> int (length (frames ! i))" "int (length (frames ! i)) < 256 ^ 4"
        using fits that by simp_all
      show ?thesis
        using le_decode_le_bytes_id [OF s] le_decode_le_bytes_id [OF u] le_decode_le_bytes_id [OF l]
        by (simp add: pcap_record_def slice_def ts_sec_def ts_usec_def)
    qed
    show ?thesis using wfile fields by blast
  qed
  have bad: "\<exists>k < length frames. (\<forall>j < k. ?fits j) \<and> \<not> ?fits k
         \<and> write_pcap frames base_ts_sec =
             (GLOBAL_HEADER_BYTES
              @ concat (map (\<lambda>(i, frame). pcap_record base_ts_sec i frame)
                          (enumerate 0 (take k frames))), Some StructError)"
    if ex: "\<exists>i < length frames. \<not> ?fits i"
  proof -
    have "\<exists>k. (k < length frames \<and> \<not> ?fits k) \<and> (\<forall>j < k. \<not> (j < length frames \<and> \<not> ?fits j))"
      using ex exists_least_iff [of "\<lambda>k. k < length frames \<and> \<not> ?fits k"] by blast
    then obtain k where k: "k < length frames" "\<not> ?fits k"
        and least: "\<forall>j < k. \<not> (j < length frames \<and> \<not> ?fits j)"
      by blast
    have before: "\<forall>j < k. ?fits j"
      using least k(1) by auto
    have b0: "\<forall>j < k. 0 \<le> ts_sec base_ts_sec (0 + j) \<and> ts_sec base_ts_sec (0 + j) < 2 ^ 32
             \<and> length (frames ! j) < 2 ^ 32"
      using before by simp
    have k0: "\<not> (0 \<le> ts_sec base_ts_sec (0 + k) \<and> ts_sec base_ts_sec (0 + k) < 2 ^ 32
             \<and> length (frames ! k) < 2 ^ 32)"
      using k(2) by simp
    have "write_pcap frames base_ts_sec =
             (GLOBAL_HEADER_BYTES
              @ concat (map (\<lambda>(i, frame). pcap_record base_ts_sec i frame)
                          (enumerate 0 (take k frames))), Some StructError)"
      by (simp only: write_pcap_def PCAP_GLOBAL_HEADER_bytes write_records_error [OF k(1) b0 k0] sum.case)
    then show ?thesis using k before by blast
  qed
  have b: "ts_sec base_ts_sec 1000 = ts_sec base_ts_sec 999 + 1 \<and> ts_usec 999 = 999000 \<and> ts_usec 1000 = 0"
    by (simp add: ts_sec_def ts_usec_def)
  show ?thesis
    using good bad ts_lex_mono b by blast
qed

theorem write_pcap_records_witness:
  "write_pcap [[1, 2, 3], [4]] 1700000000 =
     (GLOBAL_HEADER_BYTES @ pcap_record 1700000000 0 [1, 2, 3] @ pcap_record 1700000000 1 [4], None)
   \<and> write_pcap [[7]] (- 1) = (GLOBAL_HEADER_BYTES, Some StructError)
   \<and> write_pcap [] (- 5) = (GLOBAL_HEADER_BYTES, None)"
  using write_pcap_records [of "[[1, 2, 3], [4]]" 1700000000]
    write_pcap_records [of "[[7]]" "- 1"] write_pcap_records [of "[]" "- 5"]
  by (auto simp add: ts_sec_def enumerate_eq_zip upt_rec less_Suc_eq)

text \<open>
  Claim C8, as stated, makes the magic number an exception to the little-endian rule: the
  header it describes would start with the bytes A1 B2 C3 D4. The script packs the magic
  number with the same \<open><I\<close> as everything else, so the header is a different one.
\<close>

theorem global_header_magic_counterexample:
  "PCAP_GLOBAL_HEADER \<noteq>
     Inr ([0xA1, 0xB2, 0xC3, 0xD4]
          @ [2, 0, 4, 0, 0, 0, 0, 0, 0, 0, 0, 0, 0xFF, 0xFF, 0, 0, 1, 0, 0, 0])"
  by (simp add: PCAP_GLOBAL_HEADER_bytes GLOBAL_HEADER_BYTES_def)

text \<open>
  Claim C8, amended. The global capture header is exactly 24 bytes and encodes magic
  0xA1B2C3D4, version major 2, version minor 4, timezone 0, sigfigs 0, snaplen 65535 and
  network 1 (Ethernet), with all integers little-endian, the magic number included: the
  file starts with the bytes D4 C3 B2 A1.
\<close>

theorem global_header_little_endian:
  "PCAP_GLOBAL_HEADER = Inr GLOBAL_HEADER_BYTES
   \<and> length GLOBAL_HEADER_BYTES = 24
   \<and> slice 0 4 GLOBAL_HEADER_BYTES = [0xD4, 0xC3, 0xB2, 0xA1]
   \<and> le_decode (slice 0 4 GLOBAL_HEADER_BYTES) = 0xA1B2C3D4
   \<and> le_decode (slice 4 2 GLOBAL_HEADER_BYTES) = 2
   \<and> le_decode (slice 6 2 GLOBAL_HEADER_BYTES) = 4
   \<and> le_decode (slice 8 4 GLOBAL_HEADER_BYTES) = 0
   \<and> le_decode (slice 12 4 GLOBAL_HEADER_BYTES) = 0
   \<and> le_decode (slice 16 4 GLOBAL_HEADER_BYTES) = 65535
   \<and> le_decode (slice 20 4 GLOBAL_HEADER_BYTES) = 1"
  by (simp add: PCAP_GLOBAL_HEADER_bytes) (simp add: GLOBAL_HEADER_BYTES_def slice_def)

section \<open>Properties of the frame builder\<close>

text \<open>The concrete runtime keeps the contract of the generator.\<close>

lemma lcg_runtime_ok: "rng_ok lcg_runtime"
  by (simp add: rng_ok_def lcg_runtime_def lcg_randbelow_def)

lemma lcg_randint: "randint lcg_runtime a b g =
  (if b < a then Inl ValueError
   else Inr (a + int (g mod nat (b - a + 1)), (1103515245 * g + 12345) mod 2147483648))"
  by (simp add: randint_def lcg_runtime_def lcg_randbelow_def)

lemma lcg_inet_aton:
  "rt_inet_aton lcg_runtime ''192.168.69.1'' = Inr [192, 168, 69, 1]"
  "rt_inet_aton lcg_runtime ''192.168.69.2'' = Inr [192, 168, 69, 2]"
  by (simp_all add: lcg_runtime_def dotted_quad_def)

lemma randint_range:
  assumes "rng_ok L" and "a \<le> b"
  shows "\<exists>v g1. randint L a b g = Inr (v, g1) \<and> a \<le> v \<and> v \<le> b"
proof -
  obtain k g1 where kg: "rt_randbelow L (nat (b - a + 1)) g = (k, g1)"
    by (cases "rt_randbelow L (nat (b - a + 1)) g")
  have "0 < nat (b - a + 1)" using assms(2) by simp
  then have "fst (rt_randbelow L (nat (b - a + 1)) g) < nat (b - a + 1)"
    using assms(1) by (simp add: rng_ok_def)
  then have "k < nat (b - a + 1)" by (simp add: kg)
  then have "a + int k \<le> b" by linarith
  then show ?thesis
    using assms(2) by (simp add: randint_def kg)
qed

text \<open>The bytes of a frame, when every \<open>struct.pack\<close> argument is in range.\<close>

lemma frame_bytes:
  assumes "randint L 1 65535 g = Inr (ident, g1)" and "1 \<le> ident" and "ident \<le> 65535"
    and "rt_inet_aton L src_ip = Inr ip_src" and "rt_inet_aton L dst_ip = Inr ip_dst"
    and "0 \<le> src_port" "src_port < 65536" "0 \<le> dst_port" "dst_port < 65536"
    and "length payload \<le> 65507"
  shows "ethernet_ip_udp_frame L payload src_ip dst_ip src_port dst_port src_mac dst_mac g =
     Inr (dst_mac @ src_mac @ [0x08, 0x00]
          @ ([0x45, 0] @ rev (le_bytes 2 (20 + (8 + int (length payload)))) @ rev (le_bytes 2 ident)
             @ [0x40, 0, 64, 17, 0, 0]
             @ (take 4 ip_src @ replicate (4 - length ip_src) 0)
             @ (take 4 ip_dst @ replicate (4 - length ip_dst) 0))
          @ (rev (le_bytes 2 src_port) @ rev (le_bytes 2 dst_port)
             @ rev (le_bytes 2 (8 + int (length payload))) @ [0, 0])
          @ payload, g1)"
proof -
  have udp: "struct_pack BigEndian [FmtH, FmtH, FmtH, FmtH]
       [IntArg src_port, IntArg dst_port, IntArg (8 + int (length payload)), IntArg 0]
     = Inr (rev (le_bytes 2 src_port) @ rev (le_bytes 2 dst_port)
            @ rev (le_bytes 2 (8 + int (length payload))) @ [0, 0])"
    using assms(6-10) by (simp add: pack_H int_bytes_BigEndian le_bytes_2 [of 0])
  have ip: "struct_pack BigEndian
       [FmtB, FmtB, FmtH, FmtH, FmtH, FmtB, FmtB, FmtH, FmtS 4, FmtS 4]
       [IntArg 0x45, IntArg 0, IntArg (20 + (8 + int (length payload))), IntArg ident, IntArg 0x4000,
        IntArg 64, IntArg 17, IntArg 0, BytesArg ip_src, BytesArg ip_dst]
     = Inr ([0x45, 0] @ rev (le_bytes 2 (20 + (8 + int (length payload)))) @ rev (le_bytes 2 ident)
             @ [0x40, 0, 64, 17, 0, 0]
             @ (take 4 ip_src @ replicate (4 - length ip_src) 0)
             @ (take 4 ip_dst @ replicate (4 - length ip_dst) 0))"
    using assms(2,3,10)
    by (simp add: pack_H pack_B int_bytes_BigEndian le_bytes_2 [of 0] le_bytes_2 [of 16384])
  show ?thesis
    by (simp only: ethernet_ip_udp_frame_def Let_def udp ip assms(1,4,5) py_bind_simps prod.case)
qed

lemma frame_default_length:
  assumes "rng_ok L"
    and "rt_inet_aton L ''192.168.69.1'' = Inr ip_src"
    and "rt_inet_aton L ''192.168.69.2'' = Inr ip_dst"
    and "length payload \<le> 65507"
  shows "\<exists>frame g1. ethernet_ip_udp_frame_default L payload g = Inr (frame, g1)
     \<and> length frame = 42 + length payload"
proof -
  obtain ident g1 where r: "randint L 1 65535 g = Inr (ident, g1)" "1 \<le> ident" "ident \<le> 65535"
    using randint_range [OF assms(1), of 1 65535 g] by auto
  show ?thesis
    unfolding ethernet_ip_udp_frame_default_def
    by (subst frame_bytes [OF r assms(2,3) _ _ _ _ assms(4)]) simp_all
qed

text \<open>A payload too long for the 16-bit length fields never gives a frame.\<close>

lemma frame_too_long:
  assumes "65507 < length payload"
    and "rt_inet_aton L src_ip = Inr ip_src" and "rt_inet_aton L dst_ip = Inr ip_dst"
    and "0 \<le> src_port" "src_port < 65536" "0 \<le> dst_port" "dst_port < 65536"
  shows "ethernet_ip_udp_frame L payload src_ip dst_ip src_port dst_port src_mac dst_mac g =
     Inl StructError"
proof (cases "8 + int (length payload) < 65536")
  case True
  have udp: "struct_pack BigEndian [FmtH, FmtH, FmtH, FmtH]
       [IntArg src_port, IntArg dst_port, IntArg (8 + int (length payload)), IntArg 0]
     = Inr (rev (le_bytes 2 src_port) @ rev (le_bytes 2 dst_port)
            @ rev (le_bytes 2 (8 + int (length payload))) @ [0, 0])"
    using assms(4-7) True by (simp add: pack_H int_bytes_BigEndian le_bytes_2 [of 0])
  obtain k g1 where r: "rt_randbelow L (nat (65535 - 1 + 1)) g = (k, g1)"
    by (cases "rt_randbelow L (nat (65535 - 1 + 1)) g")
  have ri: "randint L 1 65535 g = Inr (1 + int k, g1)"
    using r by (simp add: randint_def)
  have big: "\<not> (20 + (8 + int (length payload)) < 65536)"
    using assms(1) by simp
  have ip: "struct_pack BigEndian
       [FmtB, FmtB, FmtH, FmtH, FmtH, FmtB, FmtB, FmtH, FmtS 4, FmtS 4]
       [IntArg 0x45, IntArg 0, IntArg (20 + (8 + int (length payload))), IntArg (1 + int k),
        IntArg 0x4000, IntArg 64, IntArg 17, IntArg 0, BytesArg ip_src, BytesArg ip_dst]
     = Inl StructError"
    using big by (simp add: pack_B pack_unsigned_def)
  show ?thesis
    by (simp only: ethernet_ip_udp_frame_def Let_def udp ip ri assms(2,3) py_bind_simps prod.case)
next
  case False
  have udp: "struct_pack BigEndian [FmtH, FmtH, FmtH, FmtH]
       [IntArg src_port, IntArg dst_port, IntArg (8 + int (length payload)), IntArg 0]
     = Inl StructError"
    using assms(4-7) False by (simp add: pack_H pack_unsigned_def)
  show ?thesis
    by (simp only: ethernet_ip_udp_frame_def Let_def udp py_bind_simps)
qed

lemma frame_raises:
  assumes "65507 < length payload"
  shows "\<exists>e. ethernet_ip_udp_frame L payload src_ip dst_ip src_port dst_port src_mac dst_mac g = Inl e"
proof -
  obtain k g1 where r: "rt_randbelow L (nat (65535 - 1 + 1)) g = (k, g1)"
    by (cases "rt_randbelow L (nat (65535 - 1 + 1)) g")
  have ri: "randint L 1 65535 g = Inr (1 + int k, g1)"
    using r by (simp add: randint_def)
  have big: "\<not> (20 + (8 + int (length payload)) < 65536)"
    using assms(1) by simp
  have ip: "struct_pack BigEndian
       [FmtB, FmtB, FmtH, FmtH, FmtH, FmtB, FmtB, FmtH, FmtS 4, FmtS 4]
       [IntArg 0x45, IntArg 0, IntArg (20 + (8 + int (length payload))), IntArg (1 + int k),
        IntArg 0x4000, IntArg 64, IntArg 17, IntArg 0, BytesArg a, BytesArg b]
     = Inl StructError" for a b
    using big by (simp add: pack_B pack_unsigned_def)
  show ?thesis
    unfolding ethernet_ip_udp_frame_def Let_def
    by (cases "struct_pack BigEndian [FmtH, FmtH, FmtH, FmtH]
          [IntArg src_port, IntArg dst_port, IntArg (8 + int (length payload)), IntArg 0]";
        cases "rt_inet_aton L src_ip"; cases "rt_inet_aton L dst_ip")
       (simp_all only: py_bind_simps ri ip prod.case sum.inject simp_thms)
qed

text \<open>
  Claim C6, as stated, for every payload given to the frame builder: it fails where a
  value does not fit its 16-bit header field, and the Ethernet header has 14 bytes only
  with 6-byte MAC addresses. With a payload of 65508 bytes the UDP length 65516 still
  fits, the IPv4 total length 65536 does not, and \<open>struct.pack\<close> raises instead of
  returning a frame; with the source port 65536 \<open>struct.pack\<close> raises on the UDP header;
  with a 5-byte source MAC address and a 3-byte payload the frame has 44 bytes, not 45.
\<close>

theorem frame_counterexample:
  "ethernet_ip_udp_frame_default lcg_runtime (replicate 65508 0) 42 = Inl StructError
   \<and> ethernet_ip_udp_frame lcg_runtime [1, 2, 3] ''192.168.69.1'' ''192.168.69.2'' 65536 8080
       [0x00, 0x11, 0x22, 0x33, 0x44, 0x55] [0x02, 0x00, 0x00, 0x00, 0x00, 0x01] 42 = Inl StructError
   \<and> ethernet_ip_udp_frame lcg_runtime [1, 2, 3] ''192.168.69.1'' ''192.168.69.2'' 54321 8080
       [0x00, 0x11, 0x22, 0x33, 0x44] [0x02, 0x00, 0x00, 0x00, 0x00, 0x01] 42 =
     Inr ([0x02, 0x00, 0x00, 0x00, 0x00, 0x01, 0x00, 0x11, 0x22, 0x33, 0x44, 0x08, 0x00,
           0x45, 0, 0, 31, 0, 43, 0x40, 0, 64, 17, 0, 0, 192, 168, 69, 1, 192, 168, 69, 2,
           0xD4, 0x31, 0x1F, 0x90, 0, 11, 0, 0, 1, 2, 3], 1250496027)"
proof -
  have a: "ethernet_ip_udp_frame_default lcg_runtime (replicate 65508 0) 42 = Inl StructError"
    by (simp add: ethernet_ip_udp_frame_default_def ethernet_ip_udp_frame_def Let_def
        lcg_randint lcg_inet_aton pack_unsigned_def)
  have b: "ethernet_ip_udp_frame lcg_runtime [1, 2, 3] ''192.168.69.1'' ''192.168.69.2'' 65536 8080
       [0x00, 0x11, 0x22, 0x33, 0x44, 0x55] [0x02, 0x00, 0x00, 0x00, 0x00, 0x01] 42 = Inl StructError"
    by (simp add: ethernet_ip_udp_frame_def Let_def pack_unsigned_def)
  have r: "randint lcg_runtime 1 65535 42 = Inr (43, 1250496027)"
    by (simp add: lcg_randint)
  have c: "ethernet_ip_udp_frame lcg_runtime [1, 2, 3] ''192.168.69.1'' ''192.168.69.2'' 54321 8080
       [0x00, 0x11, 0x22, 0x33, 0x44] [0x02, 0x00, 0x00, 0x00, 0x00, 0x01] 42 =
     Inr ([0x02, 0x00, 0x00, 0x00, 0x00, 0x01, 0x00, 0x11, 0x22, 0x33, 0x44, 0x08, 0x00,
           0x45, 0, 0, 31, 0, 43, 0x40, 0, 64, 17, 0, 0, 192, 168, 69, 1, 192, 168, 69, 2,
           0xD4, 0x31, 0x1F, 0x90, 0, 11, 0, 0, 1, 2, 3], 1250496027)"
    by (subst frame_bytes [OF r _ _ lcg_inet_aton]) (simp_all add: le_bytes_2)
  show ?thesis using a b c by (intro conjI)
qed

text \<open>
  Claim C6, amended. For every payload of at most 65507 bytes given to the frame builder
  with ports in [0, 65535] and addresses that \<open>inet_aton\<close> accepts (the generator keeping
  its contract), the produced frame is the destination MAC address, the source MAC
  address and the EtherType 08 00, followed by the 20-byte IPv4 header, the 8-byte UDP
  header and the payload; the IPv4 total-length field (bytes 2 and 3 of the IPv4 header)
  equals 20 + 8 + len(payload) and the UDP length field (bytes 4 and 5 of the UDP header)
  equals 8 + len(payload), both big-endian. With 6-byte MAC addresses, as the default
  ones are, the Ethernet header has 14 bytes, the frame has 42 + len(payload) bytes and
  the two length fields lie at the frame offsets 16 and 38. For a payload longer than
  65507 bytes no frame is produced: with such ports and addresses \<open>struct.pack\<close> raises
  \<open>struct.error\<close>, and with any arguments the builder raises.
\<close>

theorem frame_layout:
  "(rng_ok L \<and> rt_inet_aton L src_ip = Inr ip_src \<and> rt_inet_aton L dst_ip = Inr ip_dst
       \<and> 0 \<le> src_port \<and> src_port \<le> 65535 \<and> 0 \<le> dst_port \<and> dst_port \<le> 65535
       \<and> length payload \<le> 65507 \<longrightarrow>
      (\<exists>ip_hdr udp_hdr frame g1.
         ethernet_ip_udp_frame L payload src_ip dst_ip src_port dst_port src_mac dst_mac g = Inr (frame, g1)
       \<and> frame = dst_mac @ src_mac @ [0x08, 0x00] @ ip_hdr @ udp_hdr @ payload
       \<and> length ip_hdr = 20 \<and> length udp_hdr = 8
       \<and> slice 0 2 ip_hdr = [0x45, 0]
       \<and> be_decode (slice 2 2 ip_hdr) = 20 + 8 + int (length payload)
       \<and> 1 \<le> be_decode (slice 4 2 ip_hdr) \<and> be_decode (slice 4 2 ip_hdr) \<le> 65535
       \<and> slice 6 6 ip_hdr = [0x40, 0, 64, 17, 0, 0]
       \<and> slice 12 4 ip_hdr = take 4 ip_src @ replicate (4 - length ip_src) 0
       \<and> slice 16 4 ip_hdr = take 4 ip_dst @ replicate (4 - length ip_dst) 0
       \<and> be_decode (slice 0 2 udp_hdr) = src_port
       \<and> be_decode (slice 2 2 udp_hdr) = dst_port
       \<and> be_decode (slice 4 2 udp_hdr) = 8 + int (length payload)
       \<and> slice 6 2 udp_hdr = [0, 0]
       \<and> (if length dst_mac = 6 \<and> length src_mac = 6
          then length frame = 14 + 20 + 8 + length payload
             \<and> slice 0 14 frame = dst_mac @ src_mac @ [0x08, 0x00]
             \<and> slice 14 20 frame = ip_hdr \<and> slice 34 8 frame = udp_hdr
             \<and> be_decode (slice 16 2 frame) = 20 + 8 + int (length payload)
             \<and> be_decode (slice 38 2 frame) = 8 + int (length payload)
             \<and> drop 42 frame = payload
          else length frame = length dst_mac + length src_mac + 2 + 20 + 8 + length payload)))
   \<and> (rt_inet_aton L src_ip = Inr ip_src \<and> rt_inet_aton L dst_ip = Inr ip_dst
       \<and> 0 \<le> src_port \<and> src_port \<le> 65535 \<and> 0 \<le> dst_port \<and> dst_port \<le> 65535
       \<and> 65507 < length payload \<longrightarrow>
      ethernet_ip_udp_frame L payload src_ip dst_ip src_port dst_port src_mac dst_mac g = Inl StructError)
   \<and> (65507 < length payload \<longrightarrow>
      (\<exists>e. ethernet_ip_udp_frame L payload src_ip dst_ip src_port dst_port src_mac dst_mac g = Inl e))"
proof -
  have raises: "\<exists>e. ethernet_ip_udp_frame L payload src_ip dst_ip src_port dst_port src_mac dst_mac g = Inl e"
    if "65507 < length payload"
    using that by (rule frame_raises)
  have long: "ethernet_ip_udp_frame L payload src_ip dst_ip src_port dst_port src_mac dst_mac g = Inl StructError"
    if h: "rt_inet_aton L src_ip = Inr ip_src \<and> rt_inet_aton L dst_ip = Inr ip_dst
       \<and> 0 \<le> src_port \<and> src_port \<le> 65535 \<and> 0 \<le> dst_port \<and> dst_port \<le> 65535
       \<and> 65507 < length payload"
  proof -
    have a: "rt_inet_aton L src_ip = Inr ip_src" "rt_inet_aton L dst_ip = Inr ip_dst"
        "0 \<le> src_port" "src_port \<le> 65535" "0 \<le> dst_port" "dst_port \<le> 65535"
        "65507 < length payload"
      using h by blast+
    have sp: "src_port < 65536" "dst_port < 65536"
      using a(4,6) by simp_all
    show ?thesis
      using frame_too_long [OF a(7) a(1,2,3) sp(1) a(5) sp(2)] .
  qed
  have short: "\<exists>ip_hdr udp_hdr frame g1.
         ethernet_ip_udp_frame L payload src_ip dst_ip src_port dst_port src_mac dst_mac g = Inr (frame, g1)
       \<and> frame = dst_mac @ src_mac @ [0x08, 0x00] @ ip_hdr @ udp_hdr @ payload
       \<and> length ip_hdr = 20 \<and> length udp_hdr = 8
       \<and> slice 0 2 ip_hdr = [0x45, 0]
       \<and> be_decode (slice 2 2 ip_hdr) = 20 + 8 + int (length payload)
       \<and> 1 \<le> be_decode (slice 4 2 ip_hdr) \<and> be_decode (slice 4 2 ip_hdr) \<le> 65535
       \<and> slice 6 6 ip_hdr = [0x40, 0, 64, 17, 0, 0]
       \<and> slice 12 4 ip_hdr = take 4 ip_src @ replicate (4 - length ip_src) 0
       \<and> slice 16 4 ip_hdr = take 4 ip_dst @ replicate (4 - length ip_dst) 0
       \<and> be_decode (slice 0 2 udp_hdr) = src_port
       \<and> be_decode (slice 2 2 udp_hdr) = dst_port
       \<and> be_decode (slice 4 2 udp_hdr) = 8 + int (length payload)
       \<and> slice 6 2 udp_hdr = [0, 0]
       \<and> (if length dst_mac = 6 \<and> length src_mac = 6
          then length frame = 14 + 20 + 8 + length payload
             \<and> slice 0 14 frame = dst_mac @ src_mac @ [0x08, 0x00]
             \<and> slice 14 20 frame = ip_hdr \<and> slice 34 8 frame = udp_hdr
             \<and> be_decode (slice 16 2 frame) = 20 + 8 + int (length payload)
             \<and> be_decode (slice 38 2 frame) = 8 + int (length payload)
             \<and> drop 42 frame = payload
          else length frame = length dst_mac + length src_mac + 2 + 20 + 8 + length payload)"
    if h: "rng_ok L \<and> rt_inet_aton L src_ip = Inr ip_src \<and> rt_inet_aton L dst_ip = Inr ip_dst
       \<and> 0 \<le> src_port \<and> src_port \<le> 65535 \<and> 0 \<le> dst_port \<and> dst_port \<le> 65535
       \<and> length payload \<le> 65507"
  proof -
    have assms: "rng_ok L" "rt_inet_aton L src_ip = Inr ip_src" "rt_inet_aton L dst_ip = Inr ip_dst"
        "0 \<le> src_port" "src_port \<le> 65535" "0 \<le> dst_port" "dst_port \<le> 65535"
      and len: "length payload \<le> 65507"
      using h by blast+
    have sp: "src_port < 65536" "dst_port < 65536"
      using assms(5,7) by simp_all
    obtain ident g1 where r: "randint L 1 65535 g = Inr (ident, g1)" "1 \<le> ident" "ident \<le> 65535"
      using randint_range [OF assms(1), of 1 65535 g] by auto
    define a4 where "a4 = take 4 ip_src @ replicate (4 - length ip_src) (0::byte)"
    define b4 where "b4 = take 4 ip_dst @ replicate (4 - length ip_dst) (0::byte)"
    define tl where "tl = rev (le_bytes 2 (28 + int (length payload)))"
    define idb where "idb = rev (le_bytes 2 ident)"
    define spb where "spb = rev (le_bytes 2 src_port)"
    define dpb where "dpb = rev (le_bytes 2 dst_port)"
    define ulb where "ulb = rev (le_bytes 2 (8 + int (length payload)))"
    define ip_hdr where "ip_hdr = [0x45, 0] @ tl @ idb @ [0x40, 0, 64, 17, 0, 0] @ a4 @ b4"
    define udp_hdr where "udp_hdr = spb @ dpb @ ulb @ [0, 0]"
    define frame where "frame = dst_mac @ src_mac @ [0x08, 0x00] @ ip_hdr @ udp_hdr @ payload"
    have l4: "length a4 = 4" "length b4 = 4"
      by (simp_all add: a4_def b4_def)
    have l2: "length tl = 2" "length idb = 2" "length spb = 2" "length dpb = 2" "length ulb = 2"
      by (simp_all add: tl_def idb_def spb_def dpb_def ulb_def)
    have d: "be_decode tl = 28 + int (length payload)" "be_decode idb = ident"
        "be_decode spb = src_port" "be_decode dpb = dst_port"
        "be_decode ulb = 8 + int (length payload)"
      using len r(2,3) assms(4-7)
      by (simp_all add: tl_def idb_def spb_def dpb_def ulb_def be_decode_be_bytes)
    have f: "ethernet_ip_udp_frame L payload src_ip dst_ip src_port dst_port src_mac dst_mac g
         = Inr (frame, g1)"
      by (subst frame_bytes [OF r assms(2,3,4) sp(1) assms(6) sp(2) len])
         (simp add: frame_def ip_hdr_def udp_hdr_def tl_def idb_def spb_def dpb_def ulb_def
            a4_def b4_def)
    have li: "length ip_hdr = 20" and lu: "length udp_hdr = 8"
      by (simp_all add: ip_hdr_def udp_hdr_def l4 l2)
    have ipf: "slice 0 2 ip_hdr = [0x45, 0]" "slice 2 2 ip_hdr = tl" "slice 4 2 ip_hdr = idb"
        "slice 6 6 ip_hdr = [0x40, 0, 64, 17, 0, 0]" "slice 12 4 ip_hdr = a4" "slice 16 4 ip_hdr = b4"
      by (simp_all add: ip_hdr_def slice_def l4 l2)
    have udf: "slice 0 2 udp_hdr = spb" "slice 2 2 udp_hdr = dpb" "slice 4 2 udp_hdr = ulb"
        "slice 6 2 udp_hdr = [0, 0]"
      by (simp_all add: udp_hdr_def slice_def l2)
    have fd: "frame = dst_mac @ src_mac @ [0x08, 0x00] @ ip_hdr @ udp_hdr @ payload"
      by (simp add: frame_def)
    have c1: "be_decode (slice 2 2 ip_hdr) = 20 + 8 + int (length payload)"
      by (simp add: ipf d)
    have c2: "1 \<le> be_decode (slice 4 2 ip_hdr)" and c3: "be_decode (slice 4 2 ip_hdr) \<le> 65535"
      using r(2,3) by (simp_all add: ipf d)
    have c4: "slice 12 4 ip_hdr = take 4 ip_src @ replicate (4 - length ip_src) 0"
      and c5: "slice 16 4 ip_hdr = take 4 ip_dst @ replicate (4 - length ip_dst) 0"
      by (simp_all add: ipf a4_def b4_def)
    have c6: "be_decode (slice 0 2 udp_hdr) = src_port"
      and c7: "be_decode (slice 2 2 udp_hdr) = dst_port"
      and c8: "be_decode (slice 4 2 udp_hdr) = 8 + int (length payload)"
      by (simp_all add: udf d)
    have fr: "length frame = length dst_mac + length src_mac + 2 + 20 + 8 + length payload"
      by (simp add: frame_def li lu)
    have mac: "length frame = 14 + 20 + 8 + length payload
             \<and> slice 0 14 frame = dst_mac @ src_mac @ [0x08, 0x00]
             \<and> slice 14 20 frame = ip_hdr \<and> slice 34 8 frame = udp_hdr
             \<and> be_decode (slice 16 2 frame) = 20 + 8 + int (length payload)
             \<and> be_decode (slice 38 2 frame) = 8 + int (length payload)
             \<and> drop 42 frame = payload"
      if m: "length dst_mac = 6" "length src_mac = 6"
    proof -
      have s16: "slice 16 2 frame = tl"
        by (simp add: frame_def ip_hdr_def slice_def m l2)
      have s38: "slice 38 2 frame = ulb"
        by (simp add: frame_def udp_hdr_def slice_def m li l2)
      show ?thesis
        by (simp add: s16 s38 d) (simp add: frame_def slice_def m li lu)
    qed
    have rest: "if length dst_mac = 6 \<and> length src_mac = 6
          then length frame = 14 + 20 + 8 + length payload
             \<and> slice 0 14 frame = dst_mac @ src_mac @ [0x08, 0x00]
             \<and> slice 14 20 frame = ip_hdr \<and> slice 34 8 frame = udp_hdr
             \<and> be_decode (slice 16 2 frame) = 20 + 8 + int (length payload)
             \<and> be_decode (slice 38 2 frame) = 8 + int (length payload)
             \<and> drop 42 frame = payload
          else length frame = length dst_mac + length src_mac + 2 + 20 + 8 + length payload"
      using fr mac by auto
    show ?thesis
      by (rule exI [of _ ip_hdr], rule exI [of _ udp_hdr], rule exI [of _ frame], rule exI [of _ g1],
          intro conjI)
         (fact f fd li lu ipf(1) c1 c2 c3 ipf(4) c4 c5 c6 c7 c8 udf(4) rest)+
  qed
  show ?thesis using short long raises by blast
qed

theorem frame_layout_witness:
  "(\<exists>frame g1. ethernet_ip_udp_frame_default lcg_runtime [1, 2, 3] 42 = Inr (frame, g1)
     \<and> length frame = 45
     \<and> be_decode (slice 16 2 frame) = 31
     \<and> be_decode (slice 38 2 frame) = 11
     \<and> drop 42 frame = [1, 2, 3])
   \<and> ethernet_ip_udp_frame_default lcg_runtime (replicate 70000 0) 7 = Inl StructError"
  using lcg_runtime_ok lcg_inet_aton
    frame_layout [of lcg_runtime "''192.168.69.1''" "[192, 168, 69, 1]" "''192.168.69.2''"
      "[192, 168, 69, 2]" 54321 8080 "[1, 2, 3]"
      "[0x00, 0x11, 0x22, 0x33, 0x44, 0x55]" "[0x02, 0x00, 0x00, 0x00, 0x00, 0x01]" 42]
    frame_layout [of lcg_runtime "''192.168.69.1''" "[192, 168, 69, 1]" "''192.168.69.2''"
      "[192, 168, 69, 2]" 54321 8080 "replicate 70000 0"
      "[0x00, 0x11, 0x22, 0x33, 0x44, 0x55]" "[0x02, 0x00, 0x00, 0x00, 0x00, 0x01]" 7]
  by (auto simp add: ethernet_ip_udp_frame_default_def)

section \<open>Properties of the binary64 products\<close>

text \<open>
  Both literals are normalised 53-bit significands over \<open>2 ^ 53\<close>, and each is within
  half a unit in the last place of the decimal it is written as: \<open>0.90\<close> is 2/10 of a
  unit above 9/10, \<open>0.999\<close> is 8/1000 of a unit below 999/1000.
\<close>

lemma float_literals_nearest:
  "10 * fl_num FLOAT_0_90 = 9 * 2 ^ 53 + 2"
  "1000 * fl_num FLOAT_0_999 + 8 = 999 * 2 ^ 53"
  "2 ^ 52 \<le> fl_num FLOAT_0_90 \<and> fl_num FLOAT_0_90 < 2 ^ 53 \<and> fl_scale FLOAT_0_90 = 53"
  "2 ^ 52 \<le> fl_num FLOAT_0_999 \<and> fl_num FLOAT_0_999 < 2 ^ 53 \<and> fl_scale FLOAT_0_999 = 53"
  by (simp_all add: FLOAT_0_90_def FLOAT_0_999_def)

lemma bit_length_le: "n < 2 ^ k \<Longrightarrow> bit_length n \<le> k"
proof (induction k arbitrary: n)
  case 0
  then show ?case by (simp add: bit_length.simps)
next
  case (Suc k)
  show ?case
  proof (cases "n = 0")
    case True
    then show ?thesis by (simp add: bit_length.simps)
  next
    case False
    have "n div 2 < 2 ^ k" using Suc.prems by simp
    then have "bit_length (n div 2) \<le> k" by (rule Suc.IH)
    then show ?thesis using False by (subst bit_length.simps) simp
  qed
qed

lemma bit_length_upper: "n < 2 ^ bit_length n"
proof (induction n rule: bit_length.induct)
  case (1 n)
  show ?case
  proof (cases "n = 0")
    case True
    then show ?thesis by simp
  next
    case False
    then have "n div 2 < 2 ^ bit_length (n div 2)" by (rule "1.IH")
    then have "n < 2 * 2 ^ bit_length (n div 2)" by linarith
    then show ?thesis using False by (subst bit_length.simps) simp
  qed
qed

lemma bit_length_lower: "0 < n \<Longrightarrow> 2 ^ (bit_length n - 1) \<le> n"
proof (induction n rule: bit_length.induct)
  case (1 n)
  show ?case
  proof (cases "n div 2 = 0")
    case True
    then have "bit_length (n div 2) = 0" by (simp add: bit_length.simps)
    then show ?thesis using "1.prems" by (subst bit_length.simps) simp
  next
    case False
    then have pos: "0 < n div 2" by simp
    have ih: "2 ^ (bit_length (n div 2) - 1) \<le> n div 2"
      using "1.prems" pos by (intro "1.IH") simp_all
    have "0 < bit_length (n div 2)"
      using pos by (subst bit_length.simps) simp
    then have "(2::nat) ^ bit_length (n div 2) = 2 * 2 ^ (bit_length (n div 2) - 1)"
      by (cases "bit_length (n div 2)") simp_all
    then have "(2::nat) ^ bit_length (n div 2) \<le> n" using ih by linarith
    then show ?thesis using "1.prems" by (subst bit_length.simps) simp
  qed
qed

lemma round_half_even_bounds:
  "n div 2 ^ s \<le> round_half_even n s \<and> round_half_even n s \<le> n div 2 ^ s + 1"
  by (simp add: round_half_even_def Let_def)

lemma round53_small: "n < 2 ^ 53 \<Longrightarrow> round53 n = n"
  using bit_length_le [of n 53] by (simp add: round53_def)

lemma round53_div:
  assumes lo: "k * 2 ^ 53 \<le> n"
    and hi: "n + 2 ^ (bit_length n - 53) < (k + 1) * 2 ^ 53"
    and s53: "bit_length n - 53 \<le> 53"
  shows "round53 n div 2 ^ 53 = k"
proof -
  define s where "s = bit_length n - 53"
  define P :: nat where "P = 2 ^ s"
  define Q :: nat where "Q = 2 ^ (53 - s)"
  have PQ: "(2::nat) ^ 53 = Q * P"
    using s53 by (simp add: P_def Q_def s_def power_add [symmetric])
  have Ppos: "0 < P" by (simp add: P_def)
  define R where "R = round53 n"
  have "k * 2 ^ 53 \<le> R \<and> R < (k + 1) * 2 ^ 53"
  proof (cases "bit_length n \<le> 53")
    case True
    then have "R = n" by (simp add: R_def round53_def)
    moreover have "n < (k + 1) * 2 ^ 53" using hi by linarith
    ultimately show ?thesis using lo by simp
  next
    case False
    then have R: "R = round_half_even n s * P"
      by (simp add: R_def round53_def s_def P_def)
    define q where "q = n div P"
    have qb: "q \<le> round_half_even n s" "round_half_even n s \<le> q + 1"
      using round_half_even_bounds [of n s] by (simp_all add: q_def P_def)
    have kQP: "(k * Q) * P = k * 2 ^ 53" by (simp only: PQ mult.assoc)
    have "(k * Q) * P \<le> n" using lo by (simp only: kQP)
    then have "k * Q \<le> q"
      using Ppos by (simp add: q_def less_eq_div_iff_mult_less_eq)
    then have "(k * Q) * P \<le> q * P" by (rule mult_le_mono1)
    moreover have "q * P \<le> R" using qb(1) by (simp add: R)
    ultimately have l: "k * 2 ^ 53 \<le> R" by (simp only: kQP [symmetric])
    have "q * P \<le> n" by (simp add: q_def)
    moreover have "R \<le> (q + 1) * P" unfolding R using qb(2) by (rule mult_le_mono1)
    ultimately have "R \<le> n + P" by (simp add: algebra_simps)
    then have "R < (k + 1) * 2 ^ 53" using hi by (simp add: P_def s_def)
    then show ?thesis using l by simp
  qed
  then show ?thesis
    unfolding R_def by (intro div_nat_eqI) (simp_all add: mult.commute)
qed

lemma round53_up:
  assumes eq: "n + d = k * 2 ^ 53" and dpos: "0 < d"
    and half: "2 * d < 2 ^ (bit_length n - 53)"
    and big: "53 < bit_length n" and s53: "bit_length n - 53 \<le> 53"
  shows "round53 n = k * 2 ^ 53"
proof -
  define s where "s = bit_length n - 53"
  define P :: nat where "P = 2 ^ s"
  define Q :: nat where "Q = 2 ^ (53 - s)"
  have PQ: "(2::nat) ^ 53 = Q * P"
    using s53 by (simp add: P_def Q_def s_def power_add [symmetric])
  have dP: "2 * d < P" using half by (simp add: P_def s_def)
  define m where "m = k * Q"
  have mP: "m * P = k * 2 ^ 53" by (simp only: m_def PQ mult.assoc)
  have nm: "n + d = m * P" using eq by (simp only: mP)
  have "0 < m * P" using nm dpos by linarith
  then have mpos: "0 < m" by simp
  then obtain m' where m': "m = Suc m'" by (cases m) simp_all
  have n: "n = m' * P + (P - d)" using nm dP by (simp add: m')
  have r: "P - d < P" using dpos dP by linarith
  have q: "n div P = m'" using r by (simp add: n)
  have md: "n mod P = P - d" using r by (simp add: n)
  have "P < 2 * (P - d)" using dP by linarith
  then have "round_half_even n s = m' + 1"
    using q md by (simp add: round_half_even_def Let_def P_def [symmetric])
  then have "round53 n = (m' + 1) * P"
    using big by (simp add: round53_def s_def [symmetric] P_def [symmetric])
  then show ?thesis using mP by (simp add: m')
qed

lemma bit_length_gt_53: "2 ^ 53 \<le> n \<Longrightarrow> 53 < bit_length n"
proof (rule ccontr)
  assume a: "2 ^ 53 \<le> n" and "\<not> 53 < bit_length n"
  then have "bit_length n \<le> 53" by simp
  then have "(2::nat) ^ bit_length n \<le> 2 ^ 53" by (rule power_increasing) simp
  then show False using bit_length_upper [of n] a by linarith
qed

lemma product_shift_bound:
  assumes "n < 2 ^ 81"
  shows "bit_length n - 53 \<le> 28 \<and> (2::nat) ^ (bit_length n - 53) \<le> 2 ^ 28"
proof -
  have "bit_length n \<le> 81" using assms by (rule bit_length_le)
  then have s: "bit_length n - 53 \<le> 28" by simp
  then have "(2::nat) ^ (bit_length n - 53) \<le> 2 ^ 28" by (rule power_increasing) simp
  then show ?thesis using s by simp
qed

text \<open>
  \<open>int(a * 0.90)\<close> on the range of the large profile. The exact product is between
  \<open>k = 9 * a div 10\<close> and \<open>k + 1\<close>, far enough below \<open>k + 1\<close> for the rounding to stay
  there.
\<close>

lemma mul_0_90:
  assumes "10000000 \<le> a" and "a \<le> 200000000"
  shows "round53 (a * 8106479329266893) div 2 ^ 53 = 9 * a div 10"
proof -
  define n where "n = a * 8106479329266893"
  define k where "k = 9 * a div 10"
  have k: "10 * k \<le> 9 * a" "9 * a < 10 * k + 10"
    unfolding k_def by presburger+
  have n81: "n < 2 ^ 81" using assms(2) by (simp add: n_def)
  have sb: "bit_length n - 53 \<le> 28" "(2::nat) ^ (bit_length n - 53) \<le> 2 ^ 28"
    using product_shift_bound [OF n81] by simp_all
  have lo: "k * 2 ^ 53 \<le> n" using k(1) by (simp add: n_def)
  have "n + 2 ^ 28 < (k + 1) * 2 ^ 53" using k(2) assms(2) by (simp add: n_def)
  then have hi: "n + 2 ^ (bit_length n - 53) < (k + 1) * 2 ^ 53" using sb(2) by linarith
  have "round53 n div 2 ^ 53 = k"
    using lo hi sb(1) by (intro round53_div) simp_all
  then show ?thesis by (simp only: n_def k_def)
qed


lemma int_of_product_0_90:
  assumes "10000000 \<le> a" and "a \<le> 200000000"
  shows "int_of_product a FLOAT_0_90 = Inr (9 * a div 10)"
proof -
  obtain m where m: "a = int m" using assms(1) by (metis nat_0_le order_trans zero_le_numeral)
  have r: "10000000 \<le> m" "m \<le> 200000000" using assms by (simp_all add: m)
  have "m < 2 ^ 53" using r(2) by simp
  then have f: "float_of_nat m = Inr m"
    by (simp add: float_of_nat_def round53_small)
  have s: "sgn (int m) = 1" using r(1) by simp
  have "int_of_product (int m) FLOAT_0_90 = Inr (int (9 * m div 10))"
    using mul_0_90 [OF r] r(1)
    by (simp add: int_of_product_def f FLOAT_0_90_def)
  then show ?thesis by (simp add: m zdiv_int)
qed

text \<open>
  \<open>int(a * 0.999)\<close> on the range of the tight profile. The literal is below 999/1000, so
  where \<open>999 * a\<close> is a multiple of 1000 the exact product is just below the integer
  \<open>k\<close>, by less than half a unit in the last place: rounding to nearest brings it back
  to \<open>k\<close>.
\<close>

lemma mul_0_999:
  assumes "5000000 \<le> a" and "a \<le> 50000000"
  shows "round53 (a * 8998192055486251) div 2 ^ 53 = 999 * a div 1000"
proof -
  define n where "n = a * 8998192055486251"
  define k where "k = 999 * a div 1000"
  have k: "1000 * k \<le> 999 * a" "999 * a < 1000 * k + 1000"
  proof -
    show "1000 * k \<le> 999 * a" by (simp add: k_def)
    show "999 * a < 1000 * k + 1000"
      using dividend_less_times_div [of 1000 "999 * a"] by (simp add: k_def)
  qed
  have n81: "n < 2 ^ 81" using assms(2) by (simp add: n_def)
  have sb: "bit_length n - 53 \<le> 28" "(2::nat) ^ (bit_length n - 53) \<le> 2 ^ 28"
    using product_shift_bound [OF n81] by simp_all
  have s53: "bit_length n - 53 \<le> 53" using sb(1) by simp
  have "round53 n div 2 ^ 53 = k"
  proof (cases "999 * a = 1000 * k")
    case False
    then have k1: "1000 * k + 1 \<le> 999 * a" using k(1) by linarith
    have lo: "k * 2 ^ 53 \<le> n" using k1 assms(2) by (simp add: n_def)
    have "n + 2 ^ 28 < (k + 1) * 2 ^ 53" using k(2) assms(2) by (simp add: n_def)
    then have hi: "n + 2 ^ (bit_length n - 53) < (k + 1) * 2 ^ 53" using sb(2) by linarith
    show ?thesis using lo hi s53 by (rule round53_div)
  next
    case True
    define t where "t = a - k"
    have t: "a = 1000 * t" using True by (simp add: t_def)
    define d where "d = 8 * t"
    have kt: "k = 999 * t" using True t by simp
    have eq: "n + d = k * 2 ^ 53" by (simp add: n_def d_def kt t)
    have dpos: "0 < d" using assms(1) t by (simp add: d_def)
    have big: "53 < bit_length n"
      using assms(1) by (intro bit_length_gt_53) (simp add: n_def)
    define P :: nat where "P = 2 ^ (bit_length n - 53)"
    have e: "bit_length n - 53 + 53 = bit_length n" using big by simp
    have "(2::nat) ^ (bit_length n - 53 + 53) = P * 2 ^ 53"
      unfolding P_def by (rule power_add)
    then have "(2::nat) ^ bit_length n = P * 2 ^ 53" by (simp only: e)
    then have "n < P * 2 ^ 53" using bit_length_upper [of n] by (simp only:)
    then have "2 * d < P" by (simp add: n_def d_def t)
    then have half: "2 * d < 2 ^ (bit_length n - 53)" by (simp add: P_def)
    have "round53 n = k * 2 ^ 53" using eq dpos half big s53 by (rule round53_up)
    then show ?thesis by simp
  qed
  then show ?thesis by (simp only: n_def k_def)
qed

lemma int_of_product_0_999:
  assumes "5000000 \<le> a" and "a \<le> 50000000"
  shows "int_of_product a FLOAT_0_999 = Inr (999 * a div 1000)"
proof -
  obtain m where m: "a = int m" using assms(1) by (metis nat_0_le order_trans zero_le_numeral)
  have r: "5000000 \<le> m" "m \<le> 50000000" using assms by (simp_all add: m)
  have "m < 2 ^ 53" using r(2) by simp
  then have f: "float_of_nat m = Inr m"
    by (simp add: float_of_nat_def round53_small)
  have s: "sgn (int m) = 1" using r(1) by simp
  have "int_of_product (int m) FLOAT_0_999 = Inr (int (999 * m div 1000))"
    using mul_0_999 [OF r] r(1)
    by (simp add: int_of_product_def f FLOAT_0_999_def)
  then show ?thesis by (simp add: m zdiv_int)
qed

section \<open>Properties of the scenario constructors\<close>

lemma POOL_ADDR_ETH_USDC_bytes: "POOL_ADDR_ETH_USDC = Inr ETH_USDC_BYTES"
  by (simp add: POOL_ADDR_ETH_USDC_def ETH_USDC_BYTES_def ljust_def hex_digit_def is_space_def)

lemma POOL_ADDR_WBTC_ETH_bytes: "POOL_ADDR_WBTC_ETH = Inr WBTC_ETH_BYTES"
  by (simp add: POOL_ADDR_WBTC_ETH_def WBTC_ETH_BYTES_def ljust_def hex_digit_def is_space_def)

lemma pool_lengths: "length ETH_USDC_BYTES = 20" "length WBTC_ETH_BYTES = 20"
  by (simp_all add: ETH_USDC_BYTES_def WBTC_ETH_BYTES_def)

lemma choice_pair:
  assumes "rng_ok L"
  shows "\<exists>x g1. choice L [a, b] g = Inr (x, g1) \<and> (x = a \<or> x = b)"
proof -
  obtain k g1 where kg: "rt_randbelow L (length [a, b]) g = (k, g1)"
    by (cases "rt_randbelow L (length [a, b]) g")
  have "fst (rt_randbelow L (length [a, b]) g) < length [a, b]"
    using assms by (simp add: rng_ok_def)
  then have "k = 0 \<or> k = 1" using kg by auto
  then show ?thesis
    using kg by (auto simp add: choice_def)
qed

lemma decode_encoded:
  assumes "length pool_address = 20" and "token_direction \<in> {0, 1}"
    and "encode_dex_swap_tx nonce pool_address amount_in min_amount_out token_direction = Inr enc"
  shows "decode_dex_swap_tx enc =
         \<lparr> tx_nonce = nonce mod 2 ^ 64, tx_pool_address = pool_address,
           tx_amount_in = amount_in mod 2 ^ 64, tx_min_amount_out = min_amount_out mod 2 ^ 64,
           tx_token_direction = token_direction, tx_reserved = [0, 0, 0] \<rparr>
       \<and> length enc = 48"
proof -
  have dir: "uint (word_of_int token_direction :: byte) = token_direction"
    using assms(2) by (auto simp add: uint_word_of_int)
  have m: "\<And>v::int. le_decode (le_bytes 8 (v mod 2 ^ 64)) = v mod 2 ^ 64"
    by (simp add: le_decode_le_bytes)
  have enc: "enc = le_bytes 8 (nonce mod 2 ^ 64) @ pool_address @ le_bytes 8 (amount_in mod 2 ^ 64)
          @ le_bytes 8 (min_amount_out mod 2 ^ 64) @ [word_of_int token_direction, 0, 0, 0]"
    using assms(3) unfolding encode_dex_swap_tx_bytes [OF assms(1,2)] by simp
  have "length enc = 48" by (simp add: enc assms(1))
  then show ?thesis
    unfolding enc
    by (simp only: decode_layout [OF _ assms(1)] length_le_bytes m dir simp_thms)
qed

text \<open>What each constructor passes to the encoder.\<close>

lemma make_small_swap_args:
  assumes "rng_ok L"
  shows "\<exists>amount_in dir enc g2. make_small_swap L nonce g = Inr (enc, g2)
     \<and> encode_dex_swap_tx nonce ETH_USDC_BYTES amount_in 1 dir = Inr enc
     \<and> 1 \<le> amount_in \<and> amount_in \<le> 999999 \<and> dir \<in> {0, 1}"
proof -
  obtain a g1 where a: "randint L 1 999999 g = Inr (a, g1)" "1 \<le> a" "a \<le> 999999"
    using randint_range [OF assms, of 1 999999 g] by auto
  obtain d g2 where d: "randint L 0 1 g1 = Inr (d, g2)" "0 \<le> d" "d \<le> 1"
    using randint_range [OF assms, of 0 1 g1] by auto
  have dd: "d \<in> {0, 1}" using d(2,3) by auto
  obtain enc where e: "encode_dex_swap_tx nonce ETH_USDC_BYTES a 1 d = Inr enc"
    using encode_dex_swap_tx_bytes [OF pool_lengths(1) dd] by blast
  have "make_small_swap L nonce g = Inr (enc, g2)"
    by (simp add: make_small_swap_def POOL_ADDR_ETH_USDC_bytes a(1) d(1) e)
  then show ?thesis using e a(2,3) dd by blast
qed

lemma make_large_swap_args:
  assumes "rng_ok L"
  shows "\<exists>amount_in pool dir enc g3. make_large_swap L nonce g = Inr (enc, g3)
     \<and> encode_dex_swap_tx nonce pool amount_in (9 * amount_in div 10) dir = Inr enc
     \<and> 10000000 \<le> amount_in \<and> amount_in \<le> 200000000
     \<and> (pool = ETH_USDC_BYTES \<or> pool = WBTC_ETH_BYTES) \<and> dir \<in> {0, 1}"
proof -
  obtain a g1 where a: "randint L 10000000 200000000 g = Inr (a, g1)"
      "10000000 \<le> a" "a \<le> 200000000"
    using randint_range [OF assms, of 10000000 200000000 g] by auto
  obtain p g2 where p: "choice L [ETH_USDC_BYTES, WBTC_ETH_BYTES] g1 = Inr (p, g2)"
      "p = ETH_USDC_BYTES \<or> p = WBTC_ETH_BYTES"
    using choice_pair [OF assms, of ETH_USDC_BYTES WBTC_ETH_BYTES g1] by auto
  obtain d g3 where d: "randint L 0 1 g2 = Inr (d, g3)" "0 \<le> d" "d \<le> 1"
    using randint_range [OF assms, of 0 1 g2] by auto
  have dd: "d \<in> {0, 1}" using d(2,3) by auto
  have pl: "length p = 20" using p(2) pool_lengths by auto
  obtain enc where e: "encode_dex_swap_tx nonce p a (9 * a div 10) d = Inr enc"
    using encode_dex_swap_tx_bytes [OF pl dd] by blast
  have "make_large_swap L nonce g = Inr (enc, g3)"
    by (simp add: make_large_swap_def POOL_ADDR_ETH_USDC_bytes POOL_ADDR_WBTC_ETH_bytes
          a(1) int_of_product_0_90 [OF a(2,3)] p(1) d(1) e)
  then show ?thesis using e a(2,3) p(2) dd by blast
qed

lemma make_tight_slippage_swap_args:
  assumes "rng_ok L"
  shows "\<exists>amount_in enc g1. make_tight_slippage_swap L nonce g = Inr (enc, g1)
     \<and> encode_dex_swap_tx nonce ETH_USDC_BYTES amount_in (999 * amount_in div 1000) 0 = Inr enc
     \<and> 5000000 \<le> amount_in \<and> amount_in \<le> 50000000"
proof -
  obtain a g1 where a: "randint L 5000000 50000000 g = Inr (a, g1)"
      "5000000 \<le> a" "a \<le> 50000000"
    using randint_range [OF assms, of 5000000 50000000 g] by auto
  have dd: "(0::int) \<in> {0, 1}" by simp
  obtain enc where e: "encode_dex_swap_tx nonce ETH_USDC_BYTES a (999 * a div 1000) 0 = Inr enc"
    using encode_dex_swap_tx_bytes [OF pool_lengths(1) dd] by blast
  have "make_tight_slippage_swap L nonce g = Inr (enc, g1)"
    by (simp add: make_tight_slippage_swap_def POOL_ADDR_ETH_USDC_bytes
          a(1) int_of_product_0_999 [OF a(2,3)] e)
  then show ?thesis using e a(2,3) by blast
qed

text \<open>Every constructor returns a payload of 48 bytes.\<close>

lemma scenario_payload:
  assumes "rng_ok L"
  shows "\<exists>payload g1. make_scenario sc L nonce g = Inr (payload, g1)
            \<and> length payload = 48
            \<and> length (tx_pool_address (decode_dex_swap_tx payload)) = 20
            \<and> tx_token_direction (decode_dex_swap_tx payload) \<in> {0, 1}"
proof -
  have enc_ok: "length enc = 48 \<and> length (tx_pool_address (decode_dex_swap_tx enc)) = 20
        \<and> tx_token_direction (decode_dex_swap_tx enc) \<in> {0, 1}"
    if "encode_dex_swap_tx n p a mo d = Inr enc" "p = ETH_USDC_BYTES \<or> p = WBTC_ETH_BYTES" "d \<in> {0, 1}"
    for n p a mo d enc
  proof -
    have pl: "length p = 20" using that(2) pool_lengths by auto
    show ?thesis
      using decode_encoded [OF pl that(3) that(1)] pl that(3) by simp
  qed
  show ?thesis
  proof (cases sc)
    case Small_swap
    obtain a d enc g2 where h: "make_small_swap L nonce g = Inr (enc, g2)"
        "encode_dex_swap_tx nonce ETH_USDC_BYTES a 1 d = Inr enc" "d \<in> {0, 1}"
      using make_small_swap_args [OF assms, of nonce g] by blast
    show ?thesis
      using h(1) enc_ok [OF h(2) _ h(3)] by (simp add: Small_swap)
  next
    case Tight_swap
    obtain a enc g1 where h: "make_tight_slippage_swap L nonce g = Inr (enc, g1)"
        "encode_dex_swap_tx nonce ETH_USDC_BYTES a (999 * a div 1000) 0 = Inr enc"
      using make_tight_slippage_swap_args [OF assms, of nonce g] by blast
    show ?thesis
      using h(1) enc_ok [OF h(2)] by (simp add: Tight_swap)
  next
    case Large_swap
    obtain a p d enc g3 where h: "make_large_swap L nonce g = Inr (enc, g3)"
        "encode_dex_swap_tx nonce p a (9 * a div 10) d = Inr enc"
        "p = ETH_USDC_BYTES \<or> p = WBTC_ETH_BYTES" "d \<in> {0, 1}"
      using make_large_swap_args [OF assms, of nonce g] by blast
    show ?thesis
      using h(1) enc_ok [OF h(2,3,4)] by (simp add: Large_swap)
  qed
qed




lemma floor_ratio: "\<lfloor>(of_int p / of_int q :: rat) * of_int a\<rfloor> = p * a div q"
proof -
  have "(of_int p / of_int q :: rat) * of_int a = of_int (p * a) / of_int q"
    by simp
  then show ?thesis
    by (simp only: floor_divide_of_int_eq)
qed

text \<open>
  Claim C9. For every event of the large profile, amountIn lies in [10_000_000,
  200_000_000] and minAmountOut is the exact floor of the rational product 0.90 * amountIn;
  for every event of the tight profile, amountIn lies in [5_000_000, 50_000_000],
  minAmountOut is the exact floor of 0.999 * amountIn, and tokenDirection is 0. The fields
  are read from the payload with the layout decoder; the generator is assumed to keep its
  contract (a draw below n is below n); the script computes the products in binary64.
\<close>

theorem profile_amounts:
  assumes "rng_ok L"
  shows "(\<exists>enc g1. make_large_swap L nonce g = Inr (enc, g1)
            \<and> 10000000 \<le> tx_amount_in (decode_dex_swap_tx enc)
            \<and> tx_amount_in (decode_dex_swap_tx enc) \<le> 200000000
            \<and> tx_min_amount_out (decode_dex_swap_tx enc)
                = \<lfloor>(90 / 100 :: rat) * of_int (tx_amount_in (decode_dex_swap_tx enc))\<rfloor>)
       \<and> (\<exists>enc g1. make_tight_slippage_swap L nonce g = Inr (enc, g1)
            \<and> 5000000 \<le> tx_amount_in (decode_dex_swap_tx enc)
            \<and> tx_amount_in (decode_dex_swap_tx enc) \<le> 50000000
            \<and> tx_min_amount_out (decode_dex_swap_tx enc)
                = \<lfloor>(999 / 1000 :: rat) * of_int (tx_amount_in (decode_dex_swap_tx enc))\<rfloor>
            \<and> tx_token_direction (decode_dex_swap_tx enc) = 0)"
proof -
  have f90: "\<lfloor>(90 / 100 :: rat) * of_int a\<rfloor> = 9 * a div 10" for a :: int
    using floor_ratio [of 9 10 a] by simp
  have f999: "\<lfloor>(999 / 1000 :: rat) * of_int a\<rfloor> = 999 * a div 1000" for a :: int
    using floor_ratio [of 999 1000 a] by simp
  have large: "\<exists>enc g1. make_large_swap L nonce g = Inr (enc, g1)
            \<and> 10000000 \<le> tx_amount_in (decode_dex_swap_tx enc)
            \<and> tx_amount_in (decode_dex_swap_tx enc) \<le> 200000000
            \<and> tx_min_amount_out (decode_dex_swap_tx enc)
                = \<lfloor>(90 / 100 :: rat) * of_int (tx_amount_in (decode_dex_swap_tx enc))\<rfloor>"
  proof -
    obtain a p d enc g3 where h: "make_large_swap L nonce g = Inr (enc, g3)"
        "encode_dex_swap_tx nonce p a (9 * a div 10) d = Inr enc"
        "10000000 \<le> a" "a \<le> 200000000"
        "p = ETH_USDC_BYTES \<or> p = WBTC_ETH_BYTES" "d \<in> {0, 1}"
      using make_large_swap_args [OF assms, of nonce g] by blast
    have pl: "length p = 20" using h(5) pool_lengths by auto
    have a64: "a mod 2 ^ 64 = a" using h(3,4) by simp
    have "0 \<le> 9 * a div 10" "9 * a div 10 < 2 ^ 64" using h(3,4) by simp_all
    then have m64: "(9 * a div 10) mod 2 ^ 64 = 9 * a div 10" by simp
    have "tx_amount_in (decode_dex_swap_tx enc) = a"
         "tx_min_amount_out (decode_dex_swap_tx enc) = 9 * a div 10"
      using decode_encoded [OF pl h(6) h(2)] by (simp_all only: a64 m64 dex_swap_tx.simps)
    then show ?thesis using h(1,3,4) by (simp only: f90) blast
  qed
  have tight: "\<exists>enc g1. make_tight_slippage_swap L nonce g = Inr (enc, g1)
            \<and> 5000000 \<le> tx_amount_in (decode_dex_swap_tx enc)
            \<and> tx_amount_in (decode_dex_swap_tx enc) \<le> 50000000
            \<and> tx_min_amount_out (decode_dex_swap_tx enc)
                = \<lfloor>(999 / 1000 :: rat) * of_int (tx_amount_in (decode_dex_swap_tx enc))\<rfloor>
            \<and> tx_token_direction (decode_dex_swap_tx enc) = 0"
  proof -
    obtain a enc g1 where h: "make_tight_slippage_swap L nonce g = Inr (enc, g1)"
        "encode_dex_swap_tx nonce ETH_USDC_BYTES a (999 * a div 1000) 0 = Inr enc"
        "5000000 \<le> a" "a \<le> 50000000"
      using make_tight_slippage_swap_args [OF assms, of nonce g] by blast
    have dd: "(0::int) \<in> {0, 1}" by simp
    have a64: "a mod 2 ^ 64 = a" using h(3,4) by simp
    have "0 \<le> 999 * a div 1000" "999 * a div 1000 < 2 ^ 64" using h(3,4) by simp_all
    then have m64: "(999 * a div 1000) mod 2 ^ 64 = 999 * a div 1000" by simp
    have "tx_amount_in (decode_dex_swap_tx enc) = a"
         "tx_min_amount_out (decode_dex_swap_tx enc) = 999 * a div 1000"
         "tx_token_direction (decode_dex_swap_tx enc) = 0"
      using decode_encoded [OF pool_lengths(1) dd h(2)] by (simp_all only: a64 m64 dex_swap_tx.simps)
    then show ?thesis using h(1,3,4) by (simp only: f999) blast
  qed
  show ?thesis using large tight by (rule conjI)
qed

theorem profile_amounts_witness:
  "rng_ok lcg_runtime
       \<and> (\<exists>enc g1. make_large_swap lcg_runtime 7 42 = Inr (enc, g1)
            \<and> 10000000 \<le> tx_amount_in (decode_dex_swap_tx enc)
            \<and> tx_amount_in (decode_dex_swap_tx enc) \<le> 200000000
            \<and> tx_min_amount_out (decode_dex_swap_tx enc)
                = \<lfloor>(90 / 100 :: rat) * of_int (tx_amount_in (decode_dex_swap_tx enc))\<rfloor>)
       \<and> (\<exists>enc g1. make_tight_slippage_swap lcg_runtime 7 42 = Inr (enc, g1)
            \<and> 5000000 \<le> tx_amount_in (decode_dex_swap_tx enc)
            \<and> tx_amount_in (decode_dex_swap_tx enc) \<le> 50000000
            \<and> tx_min_amount_out (decode_dex_swap_tx enc)
                = \<lfloor>(999 / 1000 :: rat) * of_int (tx_amount_in (decode_dex_swap_tx enc))\<rfloor>
            \<and> tx_token_direction (decode_dex_swap_tx enc) = 0)"
  using lcg_runtime_ok profile_amounts [OF lcg_runtime_ok, of 7 42] by (rule conjI)

section \<open>Properties of the generation loop\<close>




text \<open>
  Claim C10. For every mode, index and generator state, the constructor that the loop
  body of \<open>main\<close> calls returns a payload: no assertion of the encoder fails, both
  pool-address constants are exactly 20 bytes, the direction is 0 or 1, the payload is
  exactly 48 bytes, and so the size assertion of \<open>main\<close> passes and the loop body goes on
  to build the frame. The generator is assumed to keep its contract.
\<close>

theorem constructors_meet_preconditions:
  assumes "rng_ok L"
  shows "(\<exists>a. POOL_ADDR_ETH_USDC = Inr a \<and> length a = 20)
       \<and> (\<exists>b. POOL_ADDR_WBTC_ETH = Inr b \<and> length b = 20)
       \<and> (\<exists>payload g1. make_scenario (scenario_class m i) L (int i) g = Inr (payload, g1)
            \<and> length payload = 48 \<and> length payload = WIRE_SIZE
            \<and> length (tx_pool_address (decode_dex_swap_tx payload)) = 20
            \<and> tx_token_direction (decode_dex_swap_tx payload) \<in> {0, 1}
            \<and> main_step L m i g = ethernet_ip_udp_frame_default L payload g1)"
proof -
  obtain payload g1 where p: "make_scenario (scenario_class m i) L (int i) g = Inr (payload, g1)"
      "length payload = 48"
      "length (tx_pool_address (decode_dex_swap_tx payload)) = 20"
      "tx_token_direction (decode_dex_swap_tx payload) \<in> {0, 1}"
    using scenario_payload [OF assms, of "scenario_class m i" "int i" g] by blast
  have "main_step L m i g = ethernet_ip_udp_frame_default L payload g1"
    by (simp add: main_step_def p(1,2) WIRE_SIZE_def)
  then show ?thesis
    using p by (simp add: POOL_ADDR_ETH_USDC_bytes POOL_ADDR_WBTC_ETH_bytes pool_lengths WIRE_SIZE_def)
qed

theorem constructors_meet_preconditions_witness:
  "rng_ok lcg_runtime
       \<and> (\<exists>a. POOL_ADDR_ETH_USDC = Inr a \<and> length a = 20)
       \<and> (\<exists>b. POOL_ADDR_WBTC_ETH = Inr b \<and> length b = 20)
       \<and> (\<exists>payload g1. make_scenario (scenario_class Mixed 2) lcg_runtime (int 2) 42 = Inr (payload, g1)
            \<and> length payload = 48 \<and> length payload = WIRE_SIZE
            \<and> length (tx_pool_address (decode_dex_swap_tx payload)) = 20
            \<and> tx_token_direction (decode_dex_swap_tx payload) \<in> {0, 1}
            \<and> main_step lcg_runtime Mixed 2 42 = ethernet_ip_udp_frame_default lcg_runtime payload g1)"
  using lcg_runtime_ok constructors_meet_preconditions [OF lcg_runtime_ok, of Mixed 2 42]
  by (rule conjI)

text \<open>The whole run, when the library keeps its contracts and the timestamps fit 32 bits.\<close>

lemma main_step_frame:
  assumes "rng_ok L"
    and "rt_inet_aton L ''192.168.69.1'' = Inr ip_src"
    and "rt_inet_aton L ''192.168.69.2'' = Inr ip_dst"
  shows "\<exists>frame g2. main_step L m i g = Inr (frame, g2) \<and> length frame = 90"
proof -
  obtain payload g1 where p: "make_scenario (scenario_class m i) L (int i) g = Inr (payload, g1)"
      "length payload = 48"
    using scenario_payload [OF assms(1), of "scenario_class m i" "int i" g] by blast
  have s: "main_step L m i g = ethernet_ip_udp_frame_default L payload g1"
    by (simp add: main_step_def p WIRE_SIZE_def)
  have "length payload \<le> 65507" using p(2) by simp
  then show ?thesis
    using frame_default_length [OF assms, of payload g1] by (simp add: s p(2))
qed

lemma main_loop_frames:
  assumes "rng_ok L"
    and "rt_inet_aton L ''192.168.69.1'' = Inr ip_src"
    and "rt_inet_aton L ''192.168.69.2'' = Inr ip_dst"
  shows "\<exists>new g1. main_loop L m idxs frames g = Inr (frames @ new, g1)
     \<and> length new = length idxs \<and> (\<forall>frame \<in> set new. length frame = 90)"
proof (induction idxs arbitrary: frames g)
  case Nil
  then show ?case by simp
next
  case (Cons i idxs)
  obtain frame g2 where f: "main_step L m i g = Inr (frame, g2)" "length frame = 90"
    using main_step_frame [OF assms, of m i g] by blast
  obtain new g1 where n: "main_loop L m idxs (frames @ [frame]) g2 = Inr ((frames @ [frame]) @ new, g1)"
      "length new = length idxs" "\<forall>fr \<in> set new. length fr = 90"
    using Cons.IH [of "frames @ [frame]" g2] by blast
  have "main_loop L m (i # idxs) frames g = Inr (frames @ (frame # new), g1)"
    by (simp add: f(1) n(1))
  moreover have "length (frame # new) = length (i # idxs)" by (simp add: n(2))
  moreover have "\<forall>fr \<in> set (frame # new). length fr = 90" using f(2) n(3) by simp
  ultimately show ?case by blast
qed

lemma records_length:
  assumes "\<forall>frame \<in> set frames. length frame = c"
  shows "length (concat (map (\<lambda>(j, fr). pcap_record base j fr) (enumerate i frames)))
     = (16 + c) * length frames"
  using assms by (induction frames arbitrary: i) (simp_all add: pcap_record_def)

lemma main_completes:
  assumes "rng_ok L"
    and "rt_inet_aton L ''192.168.69.1'' = Inr ip_src"
    and "rt_inet_aton L ''192.168.69.2'' = Inr ip_dst"
    and "count \<le> 2594967296000"
  shows "\<exists>file. main L count m seed g0 = (Some file, None) \<and> length file = 24 + 106 * nat count"
proof -
  obtain frames g1 where l: "main_loop L m [0..<nat count] [] (rt_seed L seed) = Inr (frames, g1)"
      "length frames = nat count" "\<forall>frame \<in> set frames. length frame = 90"
    using main_loop_frames [OF assms(1-3), of m "[0..<nat count]" "[]" "rt_seed L seed"] by auto
  have b32: "\<forall>frame \<in> set frames. length frame < 2 ^ 32" using l(3) by simp
  have ts: "\<forall>j. 0 \<le> j \<and> j < 0 + length frames \<longrightarrow> ts_sec 1700000000 j < 2 ^ 32"
  proof (intro allI impI)
    fix j assume "0 \<le> j \<and> j < 0 + length frames"
    then have "j < 2594967296000" using l(2) assms(4) by linarith
    then have "j div 1000 < 2594967296" by simp
    then show "ts_sec 1700000000 j < 2 ^ 32" by (simp add: ts_sec_def)
  qed
  have w: "write_pcap frames 1700000000 =
      (GLOBAL_HEADER_BYTES
       @ concat (map (\<lambda>(j, fr). pcap_record 1700000000 j fr) (enumerate 0 frames)), None)"
    using write_records_ok [OF _ b32 ts] by (simp add: write_pcap_def PCAP_GLOBAL_HEADER_bytes)
  have "length (GLOBAL_HEADER_BYTES
       @ concat (map (\<lambda>(j, fr). pcap_record 1700000000 j fr) (enumerate 0 frames)))
      = 24 + 106 * nat count"
    using records_length [OF l(3), of 1700000000 0] by (simp add: GLOBAL_HEADER_BYTES_def l(2))
  then show ?thesis
    by (simp add: main_def random_seed_def l(1) w)
qed

text \<open>
  Claim C4. The output of a run is a function of (count, mode, seed): two runs with the
  same count, mode and seed give the same file, byte for byte (and end in the same way),
  whatever the state of the generator was before each run. \<open>random.seed\<close> replaces that
  state once, and every later draw threads the state on in the order of the source. Where
  the library keeps its contracts and the count is at most 2594967296000, both runs do
  write the file: the global header and 106 bytes for each record.
\<close>

theorem main_deterministic:
  "main L count m seed g0 = main L count m seed g0'
   \<and> (rng_ok L \<and> rt_inet_aton L ''192.168.69.1'' = Inr ip_src
        \<and> rt_inet_aton L ''192.168.69.2'' = Inr ip_dst \<and> count \<le> 2594967296000 \<longrightarrow>
       (\<exists>file. main L count m seed g0 = (Some file, None)
          \<and> main L count m seed g0' = (Some file, None)
          \<and> length file = 24 + 106 * nat count))"
proof -
  have d: "main L count m seed g0 = main L count m seed g0'"
    by (simp add: main_def random_seed_def)
  show ?thesis
    using d main_completes [of L ip_src ip_dst count m seed g0] by auto
qed

theorem main_deterministic_witness:
  "rng_ok lcg_runtime
   \<and> main lcg_runtime 2 Mixed 42 0 = main lcg_runtime 2 Mixed 42 7
   \<and> (\<exists>file. main lcg_runtime 2 Mixed 42 0 = (Some file, None)
          \<and> main lcg_runtime 2 Mixed 42 7 = (Some file, None)
          \<and> length file = 236)"
  using lcg_runtime_ok lcg_inet_aton
    main_deterministic [of lcg_runtime 2 Mixed 42 0 7 "[192, 168, 69, 1]" "[192, 168, 69, 2]"]
  by auto

end
